theory Spec2Isabelle
  imports Complex_Main "HOL-Library.Log_Nat" "HOL-Library.Sublist" "HOL-Library.Multiset"
begin

section \<open>JavaScript numbers\<close>

text \<open>
  \<^verbatim>\<open>Date.parse\<close> returns either not-a-number or a time value, an integral number of
  milliseconds of magnitude at most 8.64e15. Every number of \<^verbatim>\<open>src/bin/index.js\<close> is
  computed from such values by \<^verbatim>\<open>-\<close>, \<^verbatim>\<open>Math.abs\<close>, \<^verbatim>\<open>+\<close> and \<^verbatim>\<open>/\<close> by a positive
  constant or an array length, so it is not-a-number or a finite double far from the
  overflow and subnormal ranges, and never a negative zero. A number is kept as the
  rational it denotes; each arithmetic operation rounds its exact result to 53 significant
  bits, to nearest, ties to even, as IEEE 754 binary64 does in its normal range.
\<close>

datatype jsnum = NaN | Num rat

definition pow2 :: "int \<Rightarrow> rat" where
  "pow2 e = (if 0 \<le> e then 2 ^ nat e else 1 / 2 ^ nat (- e))"

text \<open>The exponent \<open>e\<close> with \<open>2^e \<le> |q| < 2^(e+1)\<close>, for \<open>q \<noteq> 0\<close>.\<close>

definition binade :: "rat \<Rightarrow> int" where
  "binade q = (case quotient_of \<bar>q\<bar> of (a, b) \<Rightarrow>
     (let d = bitlen a - bitlen b in if pow2 d \<le> \<bar>q\<bar> then d else d - 1))"

definition round_even :: "rat \<Rightarrow> int" where
  "round_even r = (let f = \<lfloor>r\<rfloor>; d = r - of_int f in
     if d < 1 / 2 then f else if 1 / 2 < d then f + 1 else if even f then f else f + 1)"

definition round_double :: "rat \<Rightarrow> rat" where
  "round_double q = (if q = 0 then 0 else
     (let u = pow2 (binade q - 52) in of_int (round_even (q / u)) * u))"

definition js_add :: "jsnum \<Rightarrow> jsnum \<Rightarrow> jsnum" where
  "js_add a b = (case (a, b) of (Num x, Num y) \<Rightarrow> Num (round_double (x + y)) | _ \<Rightarrow> NaN)"

definition js_sub :: "jsnum \<Rightarrow> jsnum \<Rightarrow> jsnum" where
  "js_sub a b = (case (a, b) of (Num x, Num y) \<Rightarrow> Num (round_double (x - y)) | _ \<Rightarrow> NaN)"

text \<open>
  Division; the divisors of the program are 1000, 60 and the length of a non-empty array,
  so the quotient by zero (an infinity, or not-a-number for \<open>0 / 0\<close>) is never taken.
\<close>

definition js_div :: "jsnum \<Rightarrow> jsnum \<Rightarrow> jsnum" where
  "js_div a b = (case (a, b) of
       (Num x, Num y) \<Rightarrow> if y = 0 then NaN else Num (round_double (x / y))
     | _ \<Rightarrow> NaN)"

definition js_abs :: "jsnum \<Rightarrow> jsnum" where
  "js_abs a = (case a of NaN \<Rightarrow> NaN | Num x \<Rightarrow> Num \<bar>x\<bar>)"

definition js_lt :: "jsnum \<Rightarrow> jsnum \<Rightarrow> bool" where
  "js_lt a b = (case (a, b) of (Num x, Num y) \<Rightarrow> x < y | _ \<Rightarrow> False)"

definition js_gt :: "jsnum \<Rightarrow> jsnum \<Rightarrow> bool" where
  "js_gt a b = (case (a, b) of (Num x, Num y) \<Rightarrow> x > y | _ \<Rightarrow> False)"

definition js_ge :: "jsnum \<Rightarrow> jsnum \<Rightarrow> bool" where
  "js_ge a b = (case (a, b) of (Num x, Num y) \<Rightarrow> x \<ge> y | _ \<Rightarrow> False)"

text \<open>\<^verbatim>\<open>!n\<close> is true for not-a-number and for zero.\<close>

definition truthy :: "jsnum \<Rightarrow> bool" where
  "truthy n = (case n of NaN \<Rightarrow> False | Num x \<Rightarrow> x \<noteq> 0)"

text \<open>A value the program's arithmetic can hold: not-a-number or a rational that is a double.\<close>

definition is_double :: "jsnum \<Rightarrow> bool" where
  "is_double a = (case a of NaN \<Rightarrow> True | Num x \<Rightarrow> round_double x = x)"

section \<open>JavaScript strings and arrays\<close>

text \<open>An argument that may be \<^verbatim>\<open>undefined\<close>; \<^verbatim>\<open>!s\<close> is true for it and for the empty string.\<close>

definition truthy_string :: "string option \<Rightarrow> bool" where
  "truthy_string s = (case s of None \<Rightarrow> False | Some t \<Rightarrow> t \<noteq> [])"

text \<open>Conversion to a string, as a template literal and \<^verbatim>\<open>Date.parse\<close> apply it.\<close>

definition js_string :: "string option \<Rightarrow> string" where
  "js_string s = (case s of None \<Rightarrow> ''undefined'' | Some t \<Rightarrow> t)"

text \<open>\<^verbatim>\<open>s.split(c)\<close> for a separator of one character: never an empty array.\<close>

fun split_js :: "char \<Rightarrow> string \<Rightarrow> string list" where
  "split_js c [] = [[]]"
| "split_js c (x # xs) =
     (if x = c then [] # split_js c xs
      else (case split_js c xs of [] \<Rightarrow> [[x]] | w # ws \<Rightarrow> (x # w) # ws))"

text \<open>\<^verbatim>\<open>a[i]\<close>: \<^verbatim>\<open>undefined\<close> out of range.\<close>

definition nth_opt :: "'a list \<Rightarrow> nat \<Rightarrow> 'a option" where
  "nth_opt xs i = (if i < length xs then Some (xs ! i) else None)"

definition zip_js :: "'a list \<Rightarrow> 'b list \<Rightarrow> ('a option \<times> 'b option) list" where
  "zip_js a b = map (\<lambda>i. (nth_opt a i, nth_opt b i)) [0..<max (length b) (length a)]"

section \<open>The aggregator\<close>

text \<open>\<^verbatim>\<open>reduce\<close> without an initial value starts from the first element.\<close>

definition mean :: "jsnum list \<Rightarrow> jsnum" where
  "mean data = (if length data = 0 then NaN
     else (let sum = foldl js_add (hd data) (tl data)
           in js_div sum (Num (of_nat (length data)))))"

section \<open>The environment\<close>

text \<open>
  The engine and the repository are parameters of the model: \<^verbatim>\<open>Date.parse\<close> as a function
  from strings to numbers, \<^verbatim>\<open>String.prototype.match\<close> as a function from the pattern and
  the subject to whether a match exists (\<open>None\<close> when the pattern is not a regular
  expression and the call throws), and \<^verbatim>\<open>child_process.exec\<close> as a function from the
  command line to its error or its standard output: the repository does not change
  while an invocation runs.
\<close>

type_synonym parser = "string \<Rightarrow> jsnum"
type_synonym matcher = "string option \<Rightarrow> string \<Rightarrow> bool option"
type_synonym shell = "string \<Rightarrow> string + string"

datatype error = Thrown string | ExecError string | SyntaxError | TypeError

text \<open>
  What an invocation does to the outside, in order: the command lines it runs and the
  lines it prints. A printed line is kept as the values it is formatted from.
\<close>

datatype event =
    Exec string
  | ErrorLine string
  | ReleaseLine string string jsnum
  | SummaryLine jsnum jsnum nat jsnum

record tagByDate =
  tag :: string
  date :: jsnum

record cycleTimeResult =
  cycleTime :: jsnum
  numberOfReleases :: nat

section \<open>The pipeline\<close>

definition runShellCommand :: "shell \<Rightarrow> string \<Rightarrow> string \<Rightarrow> event list \<times> (error + string)" where
  "runShellCommand sh path command =
     (let line = ''cd '' @ path @ '' && '' @ command in
      case sh line of
        Inl err \<Rightarrow> ([Exec line, ErrorLine err], Inl (ExecError err))
      | Inr stdout \<Rightarrow> ([Exec line], Inr stdout))"

definition getCommitTime :: "shell \<Rightarrow> parser \<Rightarrow> string \<Rightarrow> string \<Rightarrow> event list \<times> (error + jsnum)" where
  "getCommitTime sh dp path sha =
     (case runShellCommand sh path (''git log -n 1 --format=format:%cI '' @ sha) of
        (ev, Inl e) \<Rightarrow> (ev, Inl e)
      | (ev, Inr stdout) \<Rightarrow> (ev, Inr (dp stdout)))"

definition getCherryForRelease :: "shell \<Rightarrow> string \<Rightarrow> string \<Rightarrow> string \<Rightarrow> event list \<times> (error + string)" where
  "getCherryForRelease sh path upstream head =
     runShellCommand sh path (''git cherry '' @ upstream @ '' '' @ head)"

text \<open>The loop of \<^verbatim>\<open>getDurationsForRelease\<close> over the lines of the diff.\<close>

fun commitDatesLoop :: "shell \<Rightarrow> parser \<Rightarrow> string \<Rightarrow> string list \<Rightarrow> jsnum list
    \<Rightarrow> event list \<times> (error + jsnum list)" where
  "commitDatesLoop sh dp path [] commitDates = ([], Inr commitDates)"
| "commitDatesLoop sh dp path (cherryCommit # rest) commitDates =
     (if prefix ''+'' cherryCommit then
        (let commit = nth_opt (split_js CHR '' '' cherryCommit) 1 in
         case getCommitTime sh dp path (js_string commit) of
           (ev, Inl e) \<Rightarrow> (ev, Inl e)
         | (ev, Inr time) \<Rightarrow>
             (case commitDatesLoop sh dp path rest (commitDates @ [time]) of
                (ev', r) \<Rightarrow> (ev @ ev', r)))
      else commitDatesLoop sh dp path rest commitDates)"

definition getDurationsForRelease :: "shell \<Rightarrow> parser \<Rightarrow> string \<Rightarrow> string \<Rightarrow> string \<Rightarrow> jsnum
    \<Rightarrow> event list \<times> (error + jsnum list)" where
  "getDurationsForRelease sh dp path upstream head releaseDate =
     (case getCherryForRelease sh path upstream head of
        (ev, Inl e) \<Rightarrow> (ev, Inl e)
      | (ev, Inr commitsDiff) \<Rightarrow>
          (case commitDatesLoop sh dp path (split_js CHR 0x0A commitsDiff) [] of
             (ev', Inl e) \<Rightarrow> (ev @ ev', Inl e)
           | (ev', Inr commitDates) \<Rightarrow>
               (ev @ ev', Inr (map (\<lambda>date. js_abs (js_sub releaseDate date)) commitDates))))"

definition parseTagLine :: "parser \<Rightarrow> string \<Rightarrow> tagByDate option" where
  "parseTagLine dp tagLine =
     (if length tagLine = 0 then None
      else (let tag = hd (split_js CHR '' '' tagLine);
                date = dp (drop (length tag) tagLine)
            in Some \<lparr>tag = tag, date = date\<rparr>))"

text \<open>The first loop of \<^verbatim>\<open>calculateCycleTime\<close>: the release selector.\<close>

fun selectLoop :: "parser \<Rightarrow> matcher \<Rightarrow> jsnum \<Rightarrow> string option \<Rightarrow> string list \<Rightarrow> tagByDate list
    \<Rightarrow> error + tagByDate list" where
  "selectLoop dp mt endDate regexp [] releaseCommits = Inr releaseCommits"
| "selectLoop dp mt endDate regexp (tagLine # rest) releaseCommits =
     (case parseTagLine dp tagLine of
        None \<Rightarrow> selectLoop dp mt endDate regexp rest releaseCommits
      | Some tagByDate \<Rightarrow>
          if js_gt (date tagByDate) endDate then selectLoop dp mt endDate regexp rest releaseCommits
          else (case mt regexp (tag tagByDate) of
                  None \<Rightarrow> Inl SyntaxError
                | Some True \<Rightarrow> selectLoop dp mt endDate regexp rest (releaseCommits @ [tagByDate])
                | Some False \<Rightarrow> selectLoop dp mt endDate regexp rest releaseCommits))"

definition hours :: "jsnum \<Rightarrow> jsnum" where
  "hours ms = js_div (js_div (js_div ms (Num 1000)) (Num 60)) (Num 60)"

text \<open>The second loop of \<^verbatim>\<open>calculateCycleTime\<close>: the window filter and the extraction.\<close>

fun releaseLoop :: "shell \<Rightarrow> parser \<Rightarrow> string \<Rightarrow> jsnum \<Rightarrow> (tagByDate option \<times> tagByDate option) list
    \<Rightarrow> jsnum list \<times> nat \<Rightarrow> event list \<times> (error + jsnum list \<times> nat)" where
  "releaseLoop sh dp path startDate [] acc = ([], Inr acc)"
| "releaseLoop sh dp path startDate (release # rest) (durationsData, numberOfReleasesInPeriod) =
     (case snd release of
        None \<Rightarrow> releaseLoop sh dp path startDate rest (durationsData, numberOfReleasesInPeriod)
      | Some currentRelease \<Rightarrow>
          if js_lt (date currentRelease) startDate
          then releaseLoop sh dp path startDate rest (durationsData, numberOfReleasesInPeriod)
          else (case fst release of
                  None \<Rightarrow> ([], Inl TypeError)
                | Some oldRelease \<Rightarrow>
                    (case getDurationsForRelease sh dp path (tag oldRelease) (tag currentRelease)
                            (date currentRelease) of
                       (ev, Inl e) \<Rightarrow> (ev, Inl e)
                     | (ev, Inr durations) \<Rightarrow>
                         (case releaseLoop sh dp path startDate rest
                                 (durationsData @ durations, numberOfReleasesInPeriod + 1) of
                            (ev', r) \<Rightarrow>
                              (ev @ [ReleaseLine (tag oldRelease) (tag currentRelease)
                                       (hours (mean durations))] @ ev', r)))))"

definition calculateCycleTime :: "shell \<Rightarrow> parser \<Rightarrow> matcher \<Rightarrow> string \<Rightarrow> string \<Rightarrow> jsnum \<Rightarrow> jsnum
    \<Rightarrow> string option \<Rightarrow> event list \<times> (error + cycleTimeResult)" where
  "calculateCycleTime sh dp mt path tagsData startDate endDate regexp =
     (let tagLines = split_js CHR 0x0A tagsData in
      case selectLoop dp mt endDate regexp tagLines [] of
        Inl e \<Rightarrow> ([], Inl e)
      | Inr releaseCommits \<Rightarrow>
          (let upper = drop 1 releaseCommits;
               zippedReleases = zip_js releaseCommits upper
           in case releaseLoop sh dp path startDate zippedReleases ([], 0) of
                (ev, Inl e) \<Rightarrow> (ev, Inl e)
              | (ev, Inr (durationsData, numberOfReleasesInPeriod)) \<Rightarrow>
                  (ev, Inr \<lparr>cycleTime = hours (mean durationsData),
                            numberOfReleases = numberOfReleasesInPeriod\<rparr>)))"

definition listTagsCommand :: "bool \<Rightarrow> string" where
  \<open>listTagsCommand isLightweight =
     (let refOption = (if isLightweight then ''creatordate'' else ''taggerdate'') in
      ''git for-each-ref --format="%(refname:short) %('' @ refOption
        @ '')" --sort="'' @ refOption @ ''" refs/tags'')\<close>

definition execute :: "shell \<Rightarrow> parser \<Rightarrow> matcher \<Rightarrow> string option \<Rightarrow> string option \<Rightarrow> string option
    \<Rightarrow> bool \<Rightarrow> string option \<Rightarrow> event list \<times> (error + unit)" where
  "execute sh dp mt startDateString endDateString regexp isLightweight path =
     (if \<not> truthy_string path then ([], Inl (Thrown ''No path to the Git repository provided''))
      else
        (let startDate = dp (js_string startDateString);
             endDate = dp (js_string endDateString)
         in if \<not> truthy startDate then ([], Inl (Thrown ''Couldn't parse start-date argument''))
            else
              (case runShellCommand sh (js_string path) (listTagsCommand isLightweight) of
                 (ev, Inl e) \<Rightarrow> (ev, Inl e)
               | (ev, Inr releaseTags) \<Rightarrow>
                   if \<not> truthy_string endDateString
                   then (ev, Inl (Thrown ''Couldn't parse end-date argument''))
                   else
                     (case calculateCycleTime sh dp mt (js_string path) releaseTags
                             startDate endDate regexp of
                        (ev', Inl e) \<Rightarrow> (ev @ ev', Inl e)
                      | (ev', Inr result) \<Rightarrow>
                          (ev @ ev' @ [SummaryLine startDate endDate (numberOfReleases result)
                                         (cycleTime result)], Inr ())))))"

section \<open>Predicates of the properties\<close>

text \<open>
  Durations that sum without rounding: each is not-a-number or a whole, non-negative number
  of milliseconds, and the whole ones add up to at most \<open>2^53\<close>.
\<close>

definition whole :: "jsnum \<Rightarrow> bool" where
  "whole a = (case a of NaN \<Rightarrow> True | Num x \<Rightarrow> 0 \<le> x \<and> of_int \<lfloor>x\<rfloor> = x)"

definition exact_total :: "jsnum list \<Rightarrow> rat" where
  "exact_total xs = sum_list (map (\<lambda>a. case a of NaN \<Rightarrow> 0 | Num x \<Rightarrow> x) xs)"

definition exactly_summable :: "jsnum list \<Rightarrow> bool" where
  "exactly_summable xs = (list_all whole xs \<and> exact_total xs \<le> 2 ^ 53)"

text \<open>An error raised by a \<^verbatim>\<open>throw\<close> statement of \<^verbatim>\<open>execute\<close>.\<close>

definition thrown :: "error \<Rightarrow> bool" where
  "thrown e = (case e of Thrown m \<Rightarrow> True | _ \<Rightarrow> False)"

text \<open>
  The window filter's rule, read off a pair: the later release is there and its date is
  not before the start of the window.
\<close>

definition admitted :: "jsnum \<Rightarrow> tagByDate option \<times> tagByDate option \<Rightarrow> bool" where
  "admitted startDate release =
     (case snd release of None \<Rightarrow> False | Some later \<Rightarrow> \<not> js_lt (date later) startDate)"

text \<open>The pairs whose line was printed, and the names a pair is printed under.\<close>

fun releaseLines :: "event list \<Rightarrow> (string option \<times> string option) list" where
  "releaseLines [] = []"
| "releaseLines (ReleaseLine earlier later h # ev) = (Some earlier, Some later) # releaseLines ev"
| "releaseLines (e # ev) = releaseLines ev"

definition names :: "tagByDate option \<times> tagByDate option \<Rightarrow> string option \<times> string option" where
  "names release = (map_option tag (fst release), map_option tag (snd release))"

text \<open>
  What the second loop does for one pair it admits: the extraction it runs, the durations
  the extraction returns, and the events of the iteration, which are those of the
  extraction followed by the pair's printed line.
\<close>

definition extraction :: "shell \<Rightarrow> parser \<Rightarrow> string \<Rightarrow> tagByDate option \<times> tagByDate option
    \<Rightarrow> event list \<times> (error + jsnum list)" where
  "extraction sh dp path release =
     (case release of
        (Some earlier, Some later) \<Rightarrow>
          getDurationsForRelease sh dp path (tag earlier) (tag later) (date later)
      | _ \<Rightarrow> ([], Inl TypeError))"

definition extracted :: "shell \<Rightarrow> parser \<Rightarrow> string \<Rightarrow> tagByDate option \<times> tagByDate option
    \<Rightarrow> jsnum list" where
  "extracted sh dp path release =
     (case snd (extraction sh dp path release) of Inr durations \<Rightarrow> durations | Inl e \<Rightarrow> [])"

definition report :: "shell \<Rightarrow> parser \<Rightarrow> string \<Rightarrow> tagByDate option \<times> tagByDate option
    \<Rightarrow> event list" where
  "report sh dp path release =
     fst (extraction sh dp path release)
     @ (case release of
          (Some earlier, Some later) \<Rightarrow>
            [ReleaseLine (tag earlier) (tag later) (hours (mean (extracted sh dp path release)))]
        | _ \<Rightarrow> [])"

text \<open>
  The tokens of a line, delimited by runs of whitespace, and the form of a line of
  \<^verbatim>\<open>git cherry\<close> for a commit that is new: a plus sign, one space, the commit identifier,
  and then the end of the line or a space.
\<close>

definition is_space :: "char \<Rightarrow> bool" where
  "is_space c = (c = CHR '' '' \<or> c = CHR 0x09 \<or> c = CHR 0x0A \<or> c = CHR 0x0B \<or> c = CHR 0x0C
     \<or> c = CHR 0x0D)"

fun tokens_from :: "string \<Rightarrow> string \<Rightarrow> string list" where
  "tokens_from cur [] = (if cur = [] then [] else [cur])"
| "tokens_from cur (c # cs) =
     (if is_space c then (if cur = [] then tokens_from [] cs else cur # tokens_from [] cs)
      else tokens_from (cur @ [c]) cs)"

definition tokens :: "string \<Rightarrow> string list" where
  "tokens s = tokens_from [] s"

definition cherry_line :: "string \<Rightarrow> bool" where
  "cherry_line l =
     (prefix ''+ '' l \<and>
      (let r = drop 2 l;
           w = takeWhile (\<lambda>c. \<not> is_space c) r;
           rest = dropWhile (\<lambda>c. \<not> is_space c) r
       in w \<noteq> [] \<and> (rest = [] \<or> hd rest = CHR '' '')))"

text \<open>
  The collaborator's answers: \<open>ts\<close> holds, line by line, the timestamp that
  \<^verbatim>\<open>getCommitTime\<close> returns for the commit named in the given field of the line.
\<close>

definition commit_times :: "shell \<Rightarrow> parser \<Rightarrow> string \<Rightarrow> (string \<Rightarrow> string option) \<Rightarrow> string list
    \<Rightarrow> jsnum list \<Rightarrow> bool" where
  "commit_times sh dp path field kept ts =
     list_all2 (\<lambda>l t. \<exists>ev. getCommitTime sh dp path (js_string (field l)) = (ev, Inr t)) kept ts"

section \<open>Rounding\<close>

lemma round_even_of_int: "round_even (of_int k) = k"
  by (simp add: round_even_def)

lemma binade_of_int:
  assumes "n \<noteq> 0"
  shows "binade (of_int n) = bitlen \<bar>n\<bar> - 1" and "(2::int) ^ nat (bitlen \<bar>n\<bar> - 1) \<le> \<bar>n\<bar>"
proof -
  from assms have pos: "0 < \<bar>n\<bar>" by simp
  from bitlen_bounds [OF pos] show low: "(2::int) ^ nat (bitlen \<bar>n\<bar> - 1) \<le> \<bar>n\<bar>" by simp
  have ge1: "1 \<le> bitlen \<bar>n\<bar>" using pos by (simp add: bitlen_alt_def)
  have q: "quotient_of \<bar>of_int n :: rat\<bar> = (\<bar>n\<bar>, 1)"
    using quotient_of_int [of "\<bar>n\<bar>"] by (simp add: Rat.of_int_def)
  have b1: "bitlen 1 = 1" by (simp add: bitlen_alt_def)
  have "(of_int (2 ^ nat (bitlen \<bar>n\<bar> - 1)) :: rat) \<le> of_int \<bar>n\<bar>"
    using low by (simp only: of_int_le_iff)
  then have "pow2 (bitlen \<bar>n\<bar> - 1) \<le> \<bar>of_int n :: rat\<bar>"
    using ge1 by (simp add: pow2_def)
  then show "binade (of_int n) = bitlen \<bar>n\<bar> - 1"
    by (simp add: binade_def q b1)
qed

lemma round_double_of_int:
  assumes "\<bar>n\<bar> \<le> 2 ^ 53"
  shows "round_double (of_int n) = of_int n"
proof (cases "n = 0")
  case True
  then show ?thesis by (simp add: round_double_def)
next
  case False
  define e where "e = bitlen \<bar>n\<bar> - 1"
  have be: "binade (of_int n) = e" and low: "(2::int) ^ nat e \<le> \<bar>n\<bar>"
    using binade_of_int [OF False] by (simp_all add: e_def)
  have e0: "0 \<le> e" using False by (simp add: e_def bitlen_alt_def)
  from low assms have "(2::int) ^ nat e \<le> 2 ^ 53" by linarith
  then have e53: "nat e \<le> 53"
    by (rule power_le_imp_le_exp [of "2::int", rotated]) simp
  have "\<exists>k. (of_int n :: rat) / pow2 (e - 52) = of_int k"
  proof (cases "e \<le> 52")
    case True
    then have "pow2 (e - 52) = 1 / 2 ^ nat (52 - e)"
      by (cases "e = 52") (simp_all add: pow2_def)
    then have "(of_int n :: rat) / pow2 (e - 52) = of_int (n * 2 ^ nat (52 - e))" by simp
    then show ?thesis ..
  next
    case False
    with e53 e0 have e: "e = 53" by linarith
    with low assms have abs: "\<bar>n\<bar> = 2 ^ 53" by simp
    have p: "pow2 (e - 52) = 2" using e by (simp add: pow2_def)
    from abs have "n = 9007199254740992 \<or> n = - 9007199254740992" by simp arith
    then have "(of_int n :: rat) / 2 = of_int 4503599627370496
        \<or> (of_int n :: rat) / 2 = of_int (- 4503599627370496)"
      by auto
    then show ?thesis using p by metis
  qed
  then obtain k where k: "(of_int n :: rat) / pow2 (e - 52) = of_int k" ..
  have nz: "pow2 (e - 52) \<noteq> 0" by (simp add: pow2_def)
  from k nz have km: "of_int k * pow2 (e - 52) = (of_int n :: rat)"
    by (simp add: field_simps)
  show ?thesis
    using False by (simp add: round_double_def be k round_even_of_int km Let_def)
qed

lemma round_double_whole:
  assumes "0 \<le> x" "of_int \<lfloor>x\<rfloor> = x" "x \<le> 2 ^ 53"
  shows "round_double x = x"
proof -
  have "(of_int \<lfloor>x\<rfloor> :: rat) \<le> of_int (2 ^ 53)" using assms by simp
  then have "\<lfloor>x\<rfloor> \<le> 2 ^ 53" by (simp only: of_int_le_iff)
  moreover have "0 \<le> \<lfloor>x\<rfloor>" using assms by simp
  ultimately have "\<bar>\<lfloor>x\<rfloor>\<bar> \<le> 2 ^ 53" by simp
  from round_double_of_int [OF this] show ?thesis using assms by simp
qed

section \<open>The aggregator's properties\<close>

lemma foldl_js_add_NaN: "foldl js_add NaN xs = NaN"
  by (induction xs) (simp_all add: js_add_def)

lemma foldl_js_add_has_NaN: "NaN \<in> set xs \<Longrightarrow> foldl js_add a xs = NaN"
proof (induction xs arbitrary: a)
  case Nil
  then show ?case by simp
next
  case (Cons x xs)
  show ?case
  proof (cases "x = NaN")
    case True
    then have "js_add a x = NaN" by (simp add: js_add_def split: jsnum.splits)
    then show ?thesis by (simp add: foldl_js_add_NaN)
  next
    case False
    with Cons.prems have "NaN \<in> set xs" by auto
    from Cons.IH [OF this] show ?thesis by simp
  qed
qed

lemma mean_has_NaN: "NaN \<in> set xs \<Longrightarrow> mean xs = NaN"
proof (cases xs)
  case Nil
  then show ?thesis by (simp add: mean_def)
next
  case (Cons x rest)
  assume "NaN \<in> set xs"
  with Cons have "x = NaN \<or> NaN \<in> set rest" by auto
  then have "foldl js_add x rest = NaN"
    using foldl_js_add_NaN foldl_js_add_has_NaN by metis
  then show ?thesis using Cons by (simp add: mean_def js_div_def)
qed

lemma exact_total_nonneg: "list_all whole xs \<Longrightarrow> 0 \<le> exact_total xs"
  by (induction xs) (auto simp: exact_total_def whole_def split: jsnum.splits)

lemma foldl_js_add_exact:
  assumes "0 \<le> a" "of_int \<lfloor>a\<rfloor> = a" "list_all whole xs" "NaN \<notin> set xs"
    and "a + exact_total xs \<le> 2 ^ 53"
  shows "foldl js_add (Num a) xs = Num (a + exact_total xs)"
  using assms
proof (induction xs arbitrary: a)
  case Nil
  then show ?case by (simp add: exact_total_def)
next
  case (Cons x xs)
  from Cons.prems obtain v where x: "x = Num v" and v0: "0 \<le> v" and vi: "of_int \<lfloor>v\<rfloor> = v"
    by (cases x) (auto simp: whole_def)
  from Cons.prems have rest: "list_all whole xs" "NaN \<notin> set xs" by auto
  have tot: "exact_total (x # xs) = v + exact_total xs" by (simp add: exact_total_def x)
  have t0: "0 \<le> exact_total xs" using rest exact_total_nonneg by blast
  have sum_int: "of_int \<lfloor>a + v\<rfloor> = a + v"
  proof -
    have "a + v = of_int (\<lfloor>a\<rfloor> + \<lfloor>v\<rfloor>)" by (metis Cons.prems(2) vi of_int_add)
    then show ?thesis by (metis floor_of_int)
  qed
  have "a + v \<le> 2 ^ 53" using Cons.prems(5) tot t0 by linarith
  then have step: "js_add (Num a) x = Num (a + v)"
    using round_double_whole [of "a + v"] sum_int Cons.prems(1) v0 by (simp add: js_add_def x)
  have "foldl js_add (Num (a + v)) xs = Num (a + v + exact_total xs)"
    using Cons.IH [of "a + v"] Cons.prems(1,5) v0 sum_int rest tot by (simp add: add.assoc)
  then show ?case using step tot by (simp add: add.assoc)
qed

lemma mean_exact:
  assumes "xs \<noteq> []" "NaN \<notin> set xs" "exactly_summable xs"
  shows "mean xs = js_div (Num (exact_total xs)) (Num (of_nat (length xs)))"
proof -
  from assms(1) obtain x rest where xs: "xs = x # rest" by (cases xs) auto
  from assms xs obtain v where x: "x = Num v" and v0: "0 \<le> v" and vi: "of_int \<lfloor>v\<rfloor> = v"
    by (cases x) (auto simp: exactly_summable_def whole_def)
  have tot: "exact_total xs = v + exact_total rest" by (simp add: exact_total_def xs x)
  have "foldl js_add (Num v) rest = Num (v + exact_total rest)"
    using assms xs x tot v0 vi by (intro foldl_js_add_exact) (auto simp: exactly_summable_def)
  then have "foldl js_add (Num v) rest = Num (exact_total xs)"
    by (simp only: tot)
  then have "foldl js_add (hd xs) (tl xs) = Num (exact_total xs)"
    by (simp add: xs x)
  then show ?thesis using assms(1) by (simp add: mean_def)
qed

lemma exact_total_mset: "mset xs = mset ys \<Longrightarrow> exact_total xs = exact_total ys"
proof -
  assume "mset xs = mset ys"
  then have "mset (map (\<lambda>a. case a of NaN \<Rightarrow> 0 | Num x \<Rightarrow> x) xs)
      = mset (map (\<lambda>a. case a of NaN \<Rightarrow> (0::rat) | Num x \<Rightarrow> x) ys)"
    by simp
  then have "sum_mset (mset (map (\<lambda>a. case a of NaN \<Rightarrow> 0 | Num x \<Rightarrow> x) xs))
      = sum_mset (mset (map (\<lambda>a. case a of NaN \<Rightarrow> (0::rat) | Num x \<Rightarrow> x) ys))"
    by (rule arg_cong)
  then show ?thesis by (simp only: sum_mset_sum_list exact_total_def)
qed

lemma exactly_summable_mset: "mset xs = mset ys \<Longrightarrow> exactly_summable xs \<Longrightarrow> exactly_summable ys"
  using exact_total_mset [of xs ys] mset_eq_setD [of xs ys]
  by (simp add: exactly_summable_def list_all_iff)

text \<open>
  Claim C3, amended. \<open>mean []\<close> is not-a-number; \<open>mean [x]\<close> is \<open>x\<close> for every number
  \<open>x\<close>; and \<open>mean\<close> gives the same value on two orderings of the same durations when
  they sum without rounding: each is not-a-number or a whole, non-negative number of
  milliseconds, with a total of at most \<open>2^53\<close>. The sum is a left-to-right floating-point
  sum, so beyond that bound the order of the durations can change the result.
\<close>

theorem mean_properties:
  "mean [] = NaN
   \<and> (is_double x \<longrightarrow> mean [x] = x)
   \<and> (mset xs = mset ys \<and> exactly_summable xs \<longrightarrow> mean xs = mean ys)"
proof (intro conjI impI)
  show "mean [] = NaN" by (simp add: mean_def)
next
  assume "is_double x"
  then show "mean [x] = x"
    by (cases x) (simp_all add: mean_def js_div_def is_double_def)
next
  assume h: "mset xs = mset ys \<and> exactly_summable xs"
  then have p: "mset xs = mset ys" and ex: "exactly_summable xs" by simp_all
  have ey: "exactly_summable ys" using exactly_summable_mset [OF p ex] .
  have s: "set xs = set ys" using mset_eq_setD [OF p] .
  have l: "length xs = length ys" using mset_eq_length [OF p] .
  show "mean xs = mean ys"
  proof (cases "NaN \<in> set xs")
    case True
    then show ?thesis using s mean_has_NaN by metis
  next
    case False
    show ?thesis
    proof (cases "xs = []")
      case True
      then show ?thesis using l by simp
    next
      case ne: False
      then have "ys \<noteq> []" using l by auto
      then show ?thesis
        using mean_exact [OF ne False ex] mean_exact [of ys] ey False s l exact_total_mset [OF p]
        by simp
    qed
  qed
qed

theorem mean_properties_witness:
  "is_double (Num 7) \<and> mean [Num 7] = Num 7
   \<and> mset [Num 1000, Num 3000, Num 2000] = mset [Num 3000, Num 2000, Num 1000]
   \<and> exactly_summable [Num 1000, Num 3000, Num 2000]
   \<and> mean [Num 1000, Num 3000, Num 2000] = mean [Num 3000, Num 2000, Num 1000]"
proof -
  have d: "is_double (Num 7)" by code_simp
  have p: "mset [Num 1000, Num 3000, Num 2000] = mset [Num 3000, Num 2000, Num 1000]" by simp
  have e: "exactly_summable [Num 1000, Num 3000, Num 2000]" by code_simp
  show ?thesis
    using mean_properties [of "Num 7" "[Num 1000, Num 3000, Num 2000]" "[Num 3000, Num 2000, Num 1000]"] d p e
    by blast
qed

text \<open>
  The three durations below are those of commits dated \<open>2^53\<close> ms, 1 ms and 1 ms before a
  release at the last instant \<^verbatim>\<open>Date.parse\<close> can return, 8.64e15 ms after the epoch.
\<close>

theorem mean_reordering_counterexample:
  "map (\<lambda>date. js_abs (js_sub (Num 8640000000000000) date))
       [Num (- 367199254740992), Num 8639999999999999, Num 8639999999999999]
     = [Num (2 ^ 53), Num 1, Num 1]
   \<and> mset [Num 1, Num 1, Num (2 ^ 53)] = mset [Num (2 ^ 53), Num 1, Num 1]
   \<and> mean [Num 1, Num 1, Num (2 ^ 53)] = Num (6004799503160663 / 2)
   \<and> mean [Num (2 ^ 53), Num 1, Num 1] = Num (6004799503160661 / 2)
   \<and> mean [Num 1, Num 1, Num (2 ^ 53)] \<noteq> mean [Num (2 ^ 53), Num 1, Num 1]"
proof -
  have a: "mean [Num 1, Num 1, Num (2 ^ 53)] = Num (6004799503160663 / 2)" by code_simp
  have b: "mean [Num (2 ^ 53), Num 1, Num 1] = Num (6004799503160661 / 2)" by code_simp
  have c: "mean [Num 1, Num 1, Num (2 ^ 53)] \<noteq> mean [Num (2 ^ 53), Num 1, Num 1]"
    by code_simp
  have d: "mset [Num 1, Num 1, Num (2 ^ 53)] = mset [Num (2 ^ 53), Num 1, Num 1]" by simp
  have e: "map (\<lambda>date. js_abs (js_sub (Num 8640000000000000) date))
       [Num (- 367199254740992), Num 8639999999999999, Num 8639999999999999]
     = [Num (2 ^ 53), Num 1, Num 1]"
    by code_simp
  show ?thesis by (intro conjI) (rule e, rule d, rule a, rule b, rule c)
qed

section \<open>The tag record parser\<close>

lemma split_js_nonempty: "split_js c s \<noteq> []"
  by (induction s) (auto split: list.splits)

lemma hd_split_js: "hd (split_js c s) = takeWhile (\<lambda>x. x \<noteq> c) s"
  by (induction s) (auto split: list.splits simp: split_js_nonempty)

text \<open>
  Claim C5, amended. The empty line yields no record. Every other line, a blank or
  malformed one too, yields a record: its name is the part of the line before the first
  space (the whole line when it has none), and its timestamp is the parse of the rest of
  the line from that space on, which is not-a-number when it does not parse.
\<close>

theorem parseTagLine_record:
  "parseTagLine dp [] = None
   \<and> (tagLine \<noteq> [] \<longrightarrow>
        parseTagLine dp tagLine =
          Some \<lparr>tag = takeWhile (\<lambda>c. c \<noteq> CHR '' '') tagLine,
                date = dp (dropWhile (\<lambda>c. c \<noteq> CHR '' '') tagLine)\<rparr>)"
  by (simp add: parseTagLine_def hd_split_js dropWhile_eq_drop Let_def)

theorem parseTagLine_record_witness:
  "''v1.0 Sun Jan 1 00:00:00 2023 +0000'' \<noteq> []
   \<and> parseTagLine (\<lambda>s. if s = '' Sun Jan 1 00:00:00 2023 +0000'' then Num 1672531200000 else NaN)
         ''v1.0 Sun Jan 1 00:00:00 2023 +0000''
       = Some \<lparr>tag = ''v1.0'', date = Num 1672531200000\<rparr>"
  using parseTagLine_record [of "\<lambda>s. if s = '' Sun Jan 1 00:00:00 2023 +0000'' then Num 1672531200000 else NaN"
      "''v1.0 Sun Jan 1 00:00:00 2023 +0000''"]
  by simp

theorem parseTagLine_blank_counterexample:
  "parseTagLine (\<lambda>s. NaN) '' '' = Some \<lparr>tag = [], date = NaN\<rparr>
   \<and> parseTagLine (\<lambda>s. NaN) ''malformed'' = Some \<lparr>tag = ''malformed'', date = NaN\<rparr>
   \<and> parseTagLine (\<lambda>s. NaN) (''v1'' @ [CHR 0x09] @ ''2023'')
       = Some \<lparr>tag = ''v1'' @ [CHR 0x09] @ ''2023'', date = NaN\<rparr>"
  by (simp add: parseTagLine_def)

section \<open>The release selector\<close>

lemma selectLoop_error:
  "selectLoop dp mt endDate regexp ls acc = Inl e \<Longrightarrow> e = SyntaxError"
  by (induction ls arbitrary: acc) (auto split: option.splits if_splits bool.splits)

lemma selectLoop_result:
  "selectLoop dp mt endDate regexp ls acc = Inr out \<Longrightarrow>
     out = acc @ filter (\<lambda>r. \<not> js_gt (date r) endDate \<and> mt regexp (tag r) = Some True)
                   (List.map_filter (parseTagLine dp) ls)"
proof (induction ls arbitrary: acc)
  case Nil
  then show ?case by (simp add: map_filter_simps)
next
  case (Cons l ls)
  show ?case
  proof (cases "parseTagLine dp l")
    case None
    with Cons show ?thesis by (simp add: map_filter_simps)
  next
    case (Some r)
    show ?thesis
    proof (cases "js_gt (date r) endDate")
      case True
      with Some Cons show ?thesis by (simp add: map_filter_simps)
    next
      case False
      with Some Cons.prems obtain b where b: "mt regexp (tag r) = Some b"
        by (cases "mt regexp (tag r)") auto
      show ?thesis
      proof (cases b)
        case True
        with b False Some Cons.prems have "selectLoop dp mt endDate regexp ls (acc @ [r]) = Inr out"
          by simp
        from Cons.IH [OF this] show ?thesis
          using True b False Some by (simp add: map_filter_simps)
      next
        case nomatch: False
        with b False Some Cons.prems have "selectLoop dp mt endDate regexp ls acc = Inr out"
          by simp
        from Cons.IH [OF this] show ?thesis
          using nomatch b False Some by (simp add: map_filter_simps)
      qed
    qed
  qed
qed

text \<open>
  Claim C6. Whatever the tag lines, the pattern and the end date, the selector either
  stops on a pattern that is not a regular expression, emitting nothing, or emits records
  of which none has a timestamp strictly after the end date, none has a name that fails
  the pattern, and which come in the order of the lines they were parsed from.
\<close>

theorem selector_emits:
  "case selectLoop dp mt endDate regexp tagLines [] of
     Inl e \<Rightarrow> e = SyntaxError
   | Inr releaseCommits \<Rightarrow>
       (\<forall>r \<in> set releaseCommits. \<not> js_gt (date r) endDate)
       \<and> (\<forall>r \<in> set releaseCommits. mt regexp (tag r) = Some True)
       \<and> subseq releaseCommits (List.map_filter (parseTagLine dp) tagLines)"
proof (cases "selectLoop dp mt endDate regexp tagLines []")
  case (Inl e)
  then show ?thesis using selectLoop_error by simp
next
  case (Inr out)
  from selectLoop_result [OF this] show ?thesis using Inr by auto
qed

theorem selector_emits_witness:
  "selectLoop
     (\<lambda>s. if s = '' Sun Jan 1 00:00:00 2023 +0000'' then Num 1672531200000
          else if s = '' Wed Mar 1 00:00:00 2023 +0000'' then Num 1677628800000 else NaN)
     (\<lambda>r s. Some (CHR ''v'' \<in> set s)) (Num 1675209600000) (Some ''v'')
     [''v1 Sun Jan 1 00:00:00 2023 +0000'', ''x2 Sun Jan 1 00:00:00 2023 +0000'', ''v3 Wed Mar 1 00:00:00 2023 +0000'', []]
     []
   = Inr [\<lparr>tag = ''v1'', date = Num 1672531200000\<rparr>]
   \<and> \<not> js_gt (date \<lparr>tag = ''v1'', date = Num 1672531200000\<rparr>) (Num 1675209600000)
   \<and> CHR ''v'' \<in> set (tag \<lparr>tag = ''v1'', date = Num 1672531200000\<rparr>)
   \<and> subseq [\<lparr>tag = ''v1'', date = Num 1672531200000\<rparr>]
         (List.map_filter
            (parseTagLine
               (\<lambda>s. if s = '' Sun Jan 1 00:00:00 2023 +0000'' then Num 1672531200000
                    else if s = '' Wed Mar 1 00:00:00 2023 +0000'' then Num 1677628800000 else NaN))
            [''v1 Sun Jan 1 00:00:00 2023 +0000'', ''x2 Sun Jan 1 00:00:00 2023 +0000'',
             ''v3 Wed Mar 1 00:00:00 2023 +0000'', []])"
proof -
  have run: "selectLoop
     (\<lambda>s. if s = '' Sun Jan 1 00:00:00 2023 +0000'' then Num 1672531200000
          else if s = '' Wed Mar 1 00:00:00 2023 +0000'' then Num 1677628800000 else NaN)
     (\<lambda>r s. Some (CHR ''v'' \<in> set s)) (Num 1675209600000) (Some ''v'')
     [''v1 Sun Jan 1 00:00:00 2023 +0000'', ''x2 Sun Jan 1 00:00:00 2023 +0000'', ''v3 Wed Mar 1 00:00:00 2023 +0000'', []]
     []
   = Inr [\<lparr>tag = ''v1'', date = Num 1672531200000\<rparr>]"
    by (simp add: parseTagLine_def js_gt_def)
  note c = selector_emits [where
      dp = "\<lambda>s. if s = '' Sun Jan 1 00:00:00 2023 +0000'' then Num 1672531200000
          else if s = '' Wed Mar 1 00:00:00 2023 +0000'' then Num 1677628800000 else NaN"
      and mt = "\<lambda>r s. Some (CHR ''v'' \<in> set s)" and endDate = "Num 1675209600000"
      and regexp = "Some ''v''"
      and tagLines = "[''v1 Sun Jan 1 00:00:00 2023 +0000'', ''x2 Sun Jan 1 00:00:00 2023 +0000'',
        ''v3 Wed Mar 1 00:00:00 2023 +0000'', []]", unfolded run sum.case]
  from c have a: "\<not> js_gt (date \<lparr>tag = ''v1'', date = Num 1672531200000\<rparr>) (Num 1675209600000)"
    by simp
  from c have b: "CHR ''v'' \<in> set (tag \<lparr>tag = ''v1'', date = Num 1672531200000\<rparr>)"
    by simp
  note s = c [THEN conjunct2, THEN conjunct2]
  show ?thesis
    by (intro conjI) (rule run, rule a, rule b, rule s)
qed

section \<open>The release pairer\<close>

lemma releaseLoop_absent:
  "snd release = None \<Longrightarrow>
     releaseLoop sh dp path startDate (release # rest) acc = releaseLoop sh dp path startDate rest acc"
  by (cases acc) simp

text \<open>
  Claim C7. For a selected list of \<open>N\<close> tags the pairer emits \<open>N\<close> pairs; pair \<open>i\<close> holds
  element \<open>i\<close> and element \<open>i + 1\<close>, absent for the last index; and the last pair, whose
  later release is absent, is skipped by the window filter: the loop goes on as if the
  pair were not there.
\<close>

theorem zip_js_pairs:
  "length (zip_js xs (drop 1 xs)) = length xs
   \<and> (i < length xs \<longrightarrow>
        zip_js xs (drop 1 xs) ! i
          = (Some (xs ! i), if i + 1 < length xs then Some (xs ! (i + 1)) else None))
   \<and> (xs \<noteq> [] \<longrightarrow>
        snd (last (zip_js xs (drop 1 xs))) = None
        \<and> releaseLoop sh dp path startDate (last (zip_js xs (drop 1 xs)) # rest) acc
            = releaseLoop sh dp path startDate rest acc)"
proof (intro conjI impI)
  show len: "length (zip_js xs (drop 1 xs)) = length xs"
    by (simp add: zip_js_def)
  show "zip_js xs (drop 1 xs) ! i
      = (Some (xs ! i), if i + 1 < length xs then Some (xs ! (i + 1)) else None)"
    if "i < length xs"
    using that by (auto simp add: zip_js_def nth_opt_def)
  assume ne: "xs \<noteq> []"
  then have "last (zip_js xs (drop 1 xs)) = zip_js xs (drop 1 xs) ! (length xs - 1)"
    using len by (metis last_conv_nth length_0_conv)
  also have "\<dots> = (Some (xs ! (length xs - 1)), None)"
    using ne by (simp add: zip_js_def nth_opt_def)
  finally have l: "last (zip_js xs (drop 1 xs)) = (Some (xs ! (length xs - 1)), None)" .
  then show absent: "snd (last (zip_js xs (drop 1 xs))) = None" by simp
  show "releaseLoop sh dp path startDate (last (zip_js xs (drop 1 xs)) # rest) acc
      = releaseLoop sh dp path startDate rest acc"
    using absent by (rule releaseLoop_absent)
qed

theorem zip_js_pairs_witness:
  "(0::nat) < length [\<lparr>tag = ''v1'', date = Num 1\<rparr>, \<lparr>tag = ''v2'', date = Num 2\<rparr>]
   \<and> length (zip_js [\<lparr>tag = ''v1'', date = Num 1\<rparr>, \<lparr>tag = ''v2'', date = Num 2\<rparr>]
         (drop 1 [\<lparr>tag = ''v1'', date = Num 1\<rparr>, \<lparr>tag = ''v2'', date = Num 2\<rparr>])) = 2
   \<and> zip_js [\<lparr>tag = ''v1'', date = Num 1\<rparr>, \<lparr>tag = ''v2'', date = Num 2\<rparr>]
         (drop 1 [\<lparr>tag = ''v1'', date = Num 1\<rparr>, \<lparr>tag = ''v2'', date = Num 2\<rparr>]) ! 0
       = (Some \<lparr>tag = ''v1'', date = Num 1\<rparr>, Some \<lparr>tag = ''v2'', date = Num 2\<rparr>)
   \<and> snd (last (zip_js [\<lparr>tag = ''v1'', date = Num 1\<rparr>, \<lparr>tag = ''v2'', date = Num 2\<rparr>]
         (drop 1 [\<lparr>tag = ''v1'', date = Num 1\<rparr>, \<lparr>tag = ''v2'', date = Num 2\<rparr>]))) = None
   \<and> releaseLoop (\<lambda>c. Inl ''fatal'') (\<lambda>s. NaN) ''/repo'' (Num 0)
         [last (zip_js [\<lparr>tag = ''v1'', date = Num 1\<rparr>, \<lparr>tag = ''v2'', date = Num 2\<rparr>]
            (drop 1 [\<lparr>tag = ''v1'', date = Num 1\<rparr>, \<lparr>tag = ''v2'', date = Num 2\<rparr>]))] ([], 0)
       = ([], Inr ([], 0))"
  using zip_js_pairs [where xs = "[\<lparr>tag = ''v1'', date = Num 1\<rparr>, \<lparr>tag = ''v2'', date = Num 2\<rparr>]"
      and i = 0 and sh = "\<lambda>c. Inl ''fatal''" and dp = "\<lambda>s. NaN" and path = "''/repo''"
      and startDate = "Num 0" and rest = "[]" and acc = "([], 0)"]
  by simp

section \<open>The window filter\<close>

lemma releaseLines_append: "releaseLines (a @ b) = releaseLines a @ releaseLines b"
  by (induction a rule: releaseLines.induct) simp_all

lemma runShellCommand_lines: "runShellCommand sh path command = (ev, r) \<Longrightarrow> releaseLines ev = []"
  by (auto simp: runShellCommand_def Let_def split: sum.splits)

lemma getCommitTime_lines: "getCommitTime sh dp path sha = (ev, r) \<Longrightarrow> releaseLines ev = []"
  by (auto simp: getCommitTime_def split: prod.splits sum.splits dest: runShellCommand_lines)

lemma commitDatesLoop_lines: "commitDatesLoop sh dp path ls acc = (ev, r) \<Longrightarrow> releaseLines ev = []"
proof (induction ls arbitrary: acc ev r)
  case Nil
  then show ?case by simp
next
  case (Cons l ls)
  then show ?case
    by (auto simp: Let_def releaseLines_append split: if_splits prod.splits sum.splits
        dest: getCommitTime_lines)
qed

lemma getDurationsForRelease_lines:
  "getDurationsForRelease sh dp path up hea rd = (ev, r) \<Longrightarrow> releaseLines ev = []"
  by (auto simp: getDurationsForRelease_def getCherryForRelease_def releaseLines_append
      split: prod.splits sum.splits dest: runShellCommand_lines commitDatesLoop_lines)

lemma releaseLoop_skip:
  assumes "\<not> admitted startDate p"
  shows "releaseLoop sh dp path startDate (p # ps) acc = releaseLoop sh dp path startDate ps acc"
proof (cases "snd p")
  case None
  then show ?thesis by (cases acc) simp
next
  case (Some later)
  with assms have "js_lt (date later) startDate" by (simp add: admitted_def)
  with Some show ?thesis by (cases acc) simp
qed

lemma releaseLoop_admits:
  "releaseLoop sh dp path startDate ps (ds, n) = (ev, Inr (ds', n')) \<Longrightarrow>
     n' = n + length (filter (admitted startDate) ps)
     \<and> releaseLines ev = map names (filter (admitted startDate) ps)"
proof (induction ps arbitrary: ds n ev)
  case Nil
  then show ?case by simp
next
  case (Cons p ps)
  show ?case
  proof (cases "admitted startDate p")
    case False
    then have "releaseLoop sh dp path startDate (p # ps) (ds, n)
        = releaseLoop sh dp path startDate ps (ds, n)"
      by (rule releaseLoop_skip)
    with Cons.prems Cons.IH [of ds n ev] False show ?thesis by simp
  next
    case True
    then obtain later where later: "snd p = Some later" "\<not> js_lt (date later) startDate"
      by (auto simp: admitted_def split: option.splits)
    from Cons.prems later obtain earlier where earlier: "fst p = Some earlier"
      by (cases "fst p") auto
    from Cons.prems later earlier obtain ev1 durations where
      d: "getDurationsForRelease sh dp path (tag earlier) (tag later) (date later) = (ev1, Inr durations)"
      by (auto split: prod.splits sum.splits)
    from Cons.prems later earlier d obtain ev2 where
      r: "releaseLoop sh dp path startDate ps (ds @ durations, n + 1) = (ev2, Inr (ds', n'))"
      and ev: "ev = ev1 @ [ReleaseLine (tag earlier) (tag later) (hours (mean durations))] @ ev2"
      by (auto split: prod.splits)
    from Cons.IH [OF r] have
      "n' = n + 1 + length (filter (admitted startDate) ps)"
      "releaseLines ev2 = map names (filter (admitted startDate) ps)" by simp_all
    moreover have "names p = (Some (tag earlier), Some (tag later))"
      using later earlier by (simp add: names_def)
    ultimately show ?thesis
      using True ev getDurationsForRelease_lines [OF d] by (simp add: releaseLines_append)
  qed
qed

lemma releaseLoop_extracts:
  "releaseLoop sh dp path startDate ps (ds, n) = (ev, Inr (ds', n')) \<Longrightarrow>
     ev = concat (map (report sh dp path) (filter (admitted startDate) ps))
     \<and> ds' = ds @ concat (map (extracted sh dp path) (filter (admitted startDate) ps))
     \<and> (\<forall>p \<in> set (filter (admitted startDate) ps). \<exists>e d. extraction sh dp path p = (e, Inr d))"
proof (induction ps arbitrary: ds n ev)
  case Nil
  then show ?case by simp
next
  case (Cons p ps)
  show ?case
  proof (cases "admitted startDate p")
    case False
    then have "releaseLoop sh dp path startDate (p # ps) (ds, n)
        = releaseLoop sh dp path startDate ps (ds, n)"
      by (rule releaseLoop_skip)
    with Cons.prems Cons.IH [of ds n ev] False show ?thesis by simp
  next
    case True
    then obtain later where later: "snd p = Some later" "\<not> js_lt (date later) startDate"
      by (auto simp: admitted_def split: option.splits)
    from Cons.prems later obtain earlier where earlier: "fst p = Some earlier"
      by (cases "fst p") auto
    have p: "p = (Some earlier, Some later)" using later earlier by (cases p) simp
    from Cons.prems later earlier obtain ev1 durations where
      d: "getDurationsForRelease sh dp path (tag earlier) (tag later) (date later) = (ev1, Inr durations)"
      by (auto split: prod.splits sum.splits)
    from Cons.prems later earlier d obtain ev2 where
      r: "releaseLoop sh dp path startDate ps (ds @ durations, n + 1) = (ev2, Inr (ds', n'))"
      and ev: "ev = ev1 @ [ReleaseLine (tag earlier) (tag later) (hours (mean durations))] @ ev2"
      by (auto split: prod.splits)
    have x: "extraction sh dp path p = (ev1, Inr durations)"
      by (simp add: extraction_def p d)
    then have xd: "extracted sh dp path p = durations" by (simp add: extracted_def)
    have rp: "report sh dp path p
        = ev1 @ [ReleaseLine (tag earlier) (tag later) (hours (mean durations))]"
      using x xd unfolding p by (simp add: report_def)
    from Cons.IH [OF r] have ih:
      "ev2 = concat (map (report sh dp path) (filter (admitted startDate) ps))"
      "ds' = (ds @ durations) @ concat (map (extracted sh dp path) (filter (admitted startDate) ps))"
      "\<forall>p \<in> set (filter (admitted startDate) ps). \<exists>e d. extraction sh dp path p = (e, Inr d)"
      by simp_all
    show ?thesis
      using True ev ih x xd rp by auto
  qed
qed

lemma releaseLoop_none_admitted:
  "filter (admitted startDate) ps = [] \<Longrightarrow> releaseLoop sh dp path startDate ps acc = ([], Inr acc)"
proof (induction ps)
  case Nil
  then show ?case by (cases acc) simp
next
  case (Cons p ps)
  then have "\<not> admitted startDate p" and "filter (admitted startDate) ps = []"
    by (auto split: if_splits)
  with Cons.IH show ?case
    by (simp add: releaseLoop_skip)
qed

lemma hours_NaN: "hours NaN = NaN"
  by (simp add: hours_def js_div_def)

text \<open>
  Claim C1, amended. A pair is admitted if and only if its later release is present and
  the later timestamp is not before the start date: the timestamp is at or after the
  start date, or one of the two is not-a-number, so a pair whose later tag has an
  unparseable date is admitted. When the pipeline returns a result, the admitted pairs of
  the pairer, and only they, are sent to extraction and counted: the release count is
  their number; the events of the run are, pair by admitted pair and in order, the
  external calls of that pair's extraction followed by its printed line, and nothing
  else; the cycle time is the mean, in hours, of the durations extracted for the admitted
  pairs; and the loop passes over a pair that is not admitted as if it were not there.
\<close>

theorem window_filter_admits:
  assumes "selectLoop dp mt endDate regexp (split_js CHR 0x0A tagsData) [] = Inr releaseCommits"
    and "calculateCycleTime sh dp mt path tagsData startDate endDate regexp = (ev, Inr result)"
  shows "numberOfReleases result
           = length (filter (admitted startDate) (zip_js releaseCommits (drop 1 releaseCommits)))
       \<and> releaseLines ev
           = map names (filter (admitted startDate) (zip_js releaseCommits (drop 1 releaseCommits)))
       \<and> ev = concat (map (report sh dp path)
                  (filter (admitted startDate) (zip_js releaseCommits (drop 1 releaseCommits))))
       \<and> cycleTime result
           = hours (mean (concat (map (extracted sh dp path)
                  (filter (admitted startDate) (zip_js releaseCommits (drop 1 releaseCommits))))))
       \<and> (\<forall>release \<in> set (filter (admitted startDate)
                              (zip_js releaseCommits (drop 1 releaseCommits))).
             \<exists>e durations. extraction sh dp path release = (e, Inr durations))
       \<and> (\<forall>release rest acc. \<not> admitted startDate release \<longrightarrow>
             releaseLoop sh dp path startDate (release # rest) acc
               = releaseLoop sh dp path startDate rest acc)
       \<and> (\<forall>earlier later. admitted startDate (earlier, Some later)
             \<longleftrightarrow> js_ge (date later) startDate \<or> date later = NaN \<or> startDate = NaN)
       \<and> (\<forall>earlier. \<not> admitted startDate (earlier, None))"
proof -
  let ?adm = "filter (admitted startDate) (zip_js releaseCommits (drop 1 releaseCommits))"
  from assms obtain ds n where
    loop: "releaseLoop sh dp path startDate (zip_js releaseCommits (drop 1 releaseCommits)) ([], 0)
        = (ev, Inr (ds, n))" and res: "numberOfReleases result = n"
    and ct: "cycleTime result = hours (mean ds)"
    by (auto simp: calculateCycleTime_def Let_def split: prod.splits sum.splits)
  from releaseLoop_admits [OF loop] res have a:
    "numberOfReleases result = length ?adm" "releaseLines ev = map names ?adm"
    by simp_all
  from releaseLoop_extracts [OF loop] have b:
    "ev = concat (map (report sh dp path) ?adm)"
    "ds = concat (map (extracted sh dp path) ?adm)"
    "\<forall>release \<in> set ?adm. \<exists>e durations. extraction sh dp path release = (e, Inr durations)"
    by simp_all
  have c: "cycleTime result = hours (mean (concat (map (extracted sh dp path) ?adm)))"
    using ct b(2) by simp
  have d: "\<forall>release rest acc. \<not> admitted startDate release \<longrightarrow>
      releaseLoop sh dp path startDate (release # rest) acc
        = releaseLoop sh dp path startDate rest acc"
    by (simp add: releaseLoop_skip)
  have e: "\<forall>earlier later. admitted startDate (earlier, Some later)
      \<longleftrightarrow> js_ge (date later) startDate \<or> date later = NaN \<or> startDate = NaN"
  proof (intro allI)
    fix earlier :: "tagByDate option" and later
    show "admitted startDate (earlier, Some later)
        \<longleftrightarrow> js_ge (date later) startDate \<or> date later = NaN \<or> startDate = NaN"
      by (cases "date later"; cases startDate) (auto simp: admitted_def js_lt_def js_ge_def)
  qed
  have f: "\<forall>earlier. \<not> admitted startDate (earlier, None)"
    by (simp add: admitted_def)
  show ?thesis
    by (intro conjI) (rule a(1), rule a(2), rule b(1), rule c, rule b(3), rule d, rule e, rule f)
qed

theorem window_filter_admits_witness:
  "selectLoop
       (\<lambda>s. if s = '' Sun Jan 1 00:00:00 2023 +0000'' then Num 1672531200000
            else if s = '' Wed Jan 11 00:00:00 2023 +0000'' then Num 1673395200000
            else if s = '' Sat Jan 21 00:00:00 2023 +0000'' then Num 1674259200000
            else if s = ''2023-01-20T00:00:00+00:00'' then Num 1674172800000 else NaN)
       (\<lambda>r s. Some True) (Num 1675209600000) (Some ''v'')
       (split_js CHR 0x0A
          (''v1 Sun Jan 1 00:00:00 2023 +0000'' @ [CHR 0x0A]
          @ ''v2 Wed Jan 11 00:00:00 2023 +0000'' @ [CHR 0x0A]
          @ ''v3 Sat Jan 21 00:00:00 2023 +0000'' @ [CHR 0x0A])) []
     = Inr [\<lparr>tag = ''v1'', date = Num 1672531200000\<rparr>,
          \<lparr>tag = ''v2'', date = Num 1673395200000\<rparr>,
          \<lparr>tag = ''v3'', date = Num 1674259200000\<rparr>]
   \<and> calculateCycleTime
       (\<lambda>c. if c = ''cd /repo && git cherry v1 v2'' then Inr ''+ old111''
            else if c = ''cd /repo && git cherry v2 v3'' then Inr ''+ abc123''
            else if c = ''cd /repo && git log -n 1 --format=format:%cI abc123''
            then Inr ''2023-01-20T00:00:00+00:00'' else Inl ''fatal'')
       (\<lambda>s. if s = '' Sun Jan 1 00:00:00 2023 +0000'' then Num 1672531200000
            else if s = '' Wed Jan 11 00:00:00 2023 +0000'' then Num 1673395200000
            else if s = '' Sat Jan 21 00:00:00 2023 +0000'' then Num 1674259200000
            else if s = ''2023-01-20T00:00:00+00:00'' then Num 1674172800000 else NaN)
       (\<lambda>r s. Some True) ''/repo''
       (''v1 Sun Jan 1 00:00:00 2023 +0000'' @ [CHR 0x0A]
          @ ''v2 Wed Jan 11 00:00:00 2023 +0000'' @ [CHR 0x0A]
          @ ''v3 Sat Jan 21 00:00:00 2023 +0000'' @ [CHR 0x0A])
       (Num 1673827200000) (Num 1675209600000) (Some ''v'')
     = ([Exec ''cd /repo && git cherry v2 v3'',
         Exec ''cd /repo && git log -n 1 --format=format:%cI abc123'',
         ReleaseLine ''v2'' ''v3'' (Num 24)],
        Inr \<lparr>cycleTime = Num 24, numberOfReleases = 1\<rparr>)
   \<and> (filter (admitted (Num 1673827200000))
          (zip_js
             [\<lparr>tag = ''v1'', date = Num 1672531200000\<rparr>,
          \<lparr>tag = ''v2'', date = Num 1673395200000\<rparr>,
          \<lparr>tag = ''v3'', date = Num 1674259200000\<rparr>]
             (drop 1
                [\<lparr>tag = ''v1'', date = Num 1672531200000\<rparr>,
          \<lparr>tag = ''v2'', date = Num 1673395200000\<rparr>,
          \<lparr>tag = ''v3'', date = Num 1674259200000\<rparr>])))
     = [(Some \<lparr>tag = ''v2'', date = Num 1673395200000\<rparr>,
         Some \<lparr>tag = ''v3'', date = Num 1674259200000\<rparr>)]
   \<and> length (filter (admitted (Num 1673827200000))
          (zip_js
             [\<lparr>tag = ''v1'', date = Num 1672531200000\<rparr>,
          \<lparr>tag = ''v2'', date = Num 1673395200000\<rparr>,
          \<lparr>tag = ''v3'', date = Num 1674259200000\<rparr>]
             (drop 1
                [\<lparr>tag = ''v1'', date = Num 1672531200000\<rparr>,
          \<lparr>tag = ''v2'', date = Num 1673395200000\<rparr>,
          \<lparr>tag = ''v3'', date = Num 1674259200000\<rparr>]))) = 1
   \<and> map names (filter (admitted (Num 1673827200000))
          (zip_js
             [\<lparr>tag = ''v1'', date = Num 1672531200000\<rparr>,
          \<lparr>tag = ''v2'', date = Num 1673395200000\<rparr>,
          \<lparr>tag = ''v3'', date = Num 1674259200000\<rparr>]
             (drop 1
                [\<lparr>tag = ''v1'', date = Num 1672531200000\<rparr>,
          \<lparr>tag = ''v2'', date = Num 1673395200000\<rparr>,
          \<lparr>tag = ''v3'', date = Num 1674259200000\<rparr>])))
     = [(Some ''v2'', Some ''v3'')]
   \<and> concat (map (report
         (\<lambda>c. if c = ''cd /repo && git cherry v1 v2'' then Inr ''+ old111''
            else if c = ''cd /repo && git cherry v2 v3'' then Inr ''+ abc123''
            else if c = ''cd /repo && git log -n 1 --format=format:%cI abc123''
            then Inr ''2023-01-20T00:00:00+00:00'' else Inl ''fatal'')
         (\<lambda>s. if s = '' Sun Jan 1 00:00:00 2023 +0000'' then Num 1672531200000
            else if s = '' Wed Jan 11 00:00:00 2023 +0000'' then Num 1673395200000
            else if s = '' Sat Jan 21 00:00:00 2023 +0000'' then Num 1674259200000
            else if s = ''2023-01-20T00:00:00+00:00'' then Num 1674172800000 else NaN)
         ''/repo'')
       (filter (admitted (Num 1673827200000))
          (zip_js
             [\<lparr>tag = ''v1'', date = Num 1672531200000\<rparr>,
          \<lparr>tag = ''v2'', date = Num 1673395200000\<rparr>,
          \<lparr>tag = ''v3'', date = Num 1674259200000\<rparr>]
             (drop 1
                [\<lparr>tag = ''v1'', date = Num 1672531200000\<rparr>,
          \<lparr>tag = ''v2'', date = Num 1673395200000\<rparr>,
          \<lparr>tag = ''v3'', date = Num 1674259200000\<rparr>]))))
     = [Exec ''cd /repo && git cherry v2 v3'',
         Exec ''cd /repo && git log -n 1 --format=format:%cI abc123'',
         ReleaseLine ''v2'' ''v3'' (Num 24)]
   \<and> hours (mean (concat (map (extracted
         (\<lambda>c. if c = ''cd /repo && git cherry v1 v2'' then Inr ''+ old111''
            else if c = ''cd /repo && git cherry v2 v3'' then Inr ''+ abc123''
            else if c = ''cd /repo && git log -n 1 --format=format:%cI abc123''
            then Inr ''2023-01-20T00:00:00+00:00'' else Inl ''fatal'')
         (\<lambda>s. if s = '' Sun Jan 1 00:00:00 2023 +0000'' then Num 1672531200000
            else if s = '' Wed Jan 11 00:00:00 2023 +0000'' then Num 1673395200000
            else if s = '' Sat Jan 21 00:00:00 2023 +0000'' then Num 1674259200000
            else if s = ''2023-01-20T00:00:00+00:00'' then Num 1674172800000 else NaN)
         ''/repo'')
       (filter (admitted (Num 1673827200000))
          (zip_js
             [\<lparr>tag = ''v1'', date = Num 1672531200000\<rparr>,
          \<lparr>tag = ''v2'', date = Num 1673395200000\<rparr>,
          \<lparr>tag = ''v3'', date = Num 1674259200000\<rparr>]
             (drop 1
                [\<lparr>tag = ''v1'', date = Num 1672531200000\<rparr>,
          \<lparr>tag = ''v2'', date = Num 1673395200000\<rparr>,
          \<lparr>tag = ''v3'', date = Num 1674259200000\<rparr>]))))))
     = Num 24"
proof -
  have sel: "selectLoop
       (\<lambda>s. if s = '' Sun Jan 1 00:00:00 2023 +0000'' then Num 1672531200000
            else if s = '' Wed Jan 11 00:00:00 2023 +0000'' then Num 1673395200000
            else if s = '' Sat Jan 21 00:00:00 2023 +0000'' then Num 1674259200000
            else if s = ''2023-01-20T00:00:00+00:00'' then Num 1674172800000 else NaN)
       (\<lambda>r s. Some True) (Num 1675209600000) (Some ''v'')
       (split_js CHR 0x0A
          (''v1 Sun Jan 1 00:00:00 2023 +0000'' @ [CHR 0x0A]
          @ ''v2 Wed Jan 11 00:00:00 2023 +0000'' @ [CHR 0x0A]
          @ ''v3 Sat Jan 21 00:00:00 2023 +0000'' @ [CHR 0x0A])) []
     = Inr [\<lparr>tag = ''v1'', date = Num 1672531200000\<rparr>,
          \<lparr>tag = ''v2'', date = Num 1673395200000\<rparr>,
          \<lparr>tag = ''v3'', date = Num 1674259200000\<rparr>]"
    by code_simp
  have run: "calculateCycleTime
       (\<lambda>c. if c = ''cd /repo && git cherry v1 v2'' then Inr ''+ old111''
            else if c = ''cd /repo && git cherry v2 v3'' then Inr ''+ abc123''
            else if c = ''cd /repo && git log -n 1 --format=format:%cI abc123''
            then Inr ''2023-01-20T00:00:00+00:00'' else Inl ''fatal'')
       (\<lambda>s. if s = '' Sun Jan 1 00:00:00 2023 +0000'' then Num 1672531200000
            else if s = '' Wed Jan 11 00:00:00 2023 +0000'' then Num 1673395200000
            else if s = '' Sat Jan 21 00:00:00 2023 +0000'' then Num 1674259200000
            else if s = ''2023-01-20T00:00:00+00:00'' then Num 1674172800000 else NaN)
       (\<lambda>r s. Some True) ''/repo''
       (''v1 Sun Jan 1 00:00:00 2023 +0000'' @ [CHR 0x0A]
          @ ''v2 Wed Jan 11 00:00:00 2023 +0000'' @ [CHR 0x0A]
          @ ''v3 Sat Jan 21 00:00:00 2023 +0000'' @ [CHR 0x0A])
       (Num 1673827200000) (Num 1675209600000) (Some ''v'')
     = ([Exec ''cd /repo && git cherry v2 v3'',
         Exec ''cd /repo && git log -n 1 --format=format:%cI abc123'',
         ReleaseLine ''v2'' ''v3'' (Num 24)],
        Inr \<lparr>cycleTime = Num 24, numberOfReleases = 1\<rparr>)"
    by code_simp
  have adm: "(filter (admitted (Num 1673827200000))
          (zip_js
             [\<lparr>tag = ''v1'', date = Num 1672531200000\<rparr>,
          \<lparr>tag = ''v2'', date = Num 1673395200000\<rparr>,
          \<lparr>tag = ''v3'', date = Num 1674259200000\<rparr>]
             (drop 1
                [\<lparr>tag = ''v1'', date = Num 1672531200000\<rparr>,
          \<lparr>tag = ''v2'', date = Num 1673395200000\<rparr>,
          \<lparr>tag = ''v3'', date = Num 1674259200000\<rparr>])))
     = [(Some \<lparr>tag = ''v2'', date = Num 1673395200000\<rparr>,
         Some \<lparr>tag = ''v3'', date = Num 1674259200000\<rparr>)]"
    by code_simp
  have n: "numberOfReleases \<lparr>cycleTime = Num 24, numberOfReleases = 1\<rparr> = 1"
    by simp
  have t: "cycleTime \<lparr>cycleTime = Num 24, numberOfReleases = 1\<rparr> = Num 24"
    by simp
  have l: "releaseLines
      [Exec ''cd /repo && git cherry v2 v3'',
         Exec ''cd /repo && git log -n 1 --format=format:%cI abc123'',
         ReleaseLine ''v2'' ''v3'' (Num 24)]
    = [(Some ''v2'', Some ''v3'')]"
    by simp
  note c = window_filter_admits [OF sel run]
  note c1 = c [THEN conjunct1, unfolded n, symmetric]
  note c2 = c [THEN conjunct2, THEN conjunct1, unfolded l, symmetric]
  note c3 = c [THEN conjunct2, THEN conjunct2, THEN conjunct1, symmetric]
  note c4 = c [THEN conjunct2, THEN conjunct2, THEN conjunct2, THEN conjunct1, unfolded t, symmetric]
  show ?thesis
    by (intro conjI) (rule sel, rule run, rule adm, rule c1, rule c2, rule c3, rule c4)
qed

theorem window_filter_NaN_counterexample:
  "selectLoop (\<lambda>s. NaN) (\<lambda>r s. Some True) (Num 1675209600000) (Some ''v'') (split_js CHR 0x0A (''v1 '' @ [CHR 0x0A] @ ''v2 '' @ [CHR 0x0A])) []
     = Inr [\<lparr>tag = ''v1'', date = NaN\<rparr>, \<lparr>tag = ''v2'', date = NaN\<rparr>]
   \<and> \<not> js_ge (date \<lparr>tag = ''v2'', date = NaN\<rparr>) (Num 1672876800000)
   \<and> calculateCycleTime (\<lambda>c. Inr []) (\<lambda>s. NaN) (\<lambda>r s. Some True) ''/repo'' (''v1 '' @ [CHR 0x0A] @ ''v2 '' @ [CHR 0x0A])
         (Num 1672876800000) (Num 1675209600000) (Some ''v'')
       = ([Exec ''cd /repo && git cherry v1 v2'', ReleaseLine ''v1'' ''v2'' NaN],
          Inr \<lparr>cycleTime = NaN, numberOfReleases = 1\<rparr>)"
  by code_simp

text \<open>
  Claim C8. When the selector returns and no pair survives the window filter, the
  pipeline returns a result, not an error, without any external call: the release count
  is zero and the cycle time is not-a-number.
\<close>

theorem no_release_survives:
  assumes "selectLoop dp mt endDate regexp (split_js CHR 0x0A tagsData) [] = Inr releaseCommits"
    and "filter (admitted startDate) (zip_js releaseCommits (drop 1 releaseCommits)) = []"
  shows "calculateCycleTime sh dp mt path tagsData startDate endDate regexp
           = ([], Inr \<lparr>cycleTime = NaN, numberOfReleases = 0\<rparr>)"
  using assms(1) releaseLoop_none_admitted [OF assms(2), of sh dp path "([], 0)"]
  by (simp add: calculateCycleTime_def Let_def mean_def hours_NaN)

theorem no_release_survives_witness:
  "selectLoop (\<lambda>s. if s = '' Sun Jan 1 00:00:00 2023 +0000'' then Num 1672531200000
            else if s = '' Wed Jan 11 00:00:00 2023 +0000'' then Num 1673395200000
            else if s = ''2023-01-02T00:00:00+00:00'' then Num 1672617600000 else NaN)
       (\<lambda>r s. Some True) (Num 1675209600000) (Some ''v'') (split_js CHR 0x0A ''v1 Sun Jan 1 00:00:00 2023 +0000'') []
     = Inr [\<lparr>tag = ''v1'', date = Num 1672531200000\<rparr>]
   \<and> filter (admitted (Num 1672876800000))
       (zip_js [\<lparr>tag = ''v1'', date = Num 1672531200000\<rparr>] (drop 1 [\<lparr>tag = ''v1'', date = Num 1672531200000\<rparr>])) = []
   \<and> calculateCycleTime (\<lambda>c. Inl ''fatal'')
         (\<lambda>s. if s = '' Sun Jan 1 00:00:00 2023 +0000'' then Num 1672531200000
            else if s = '' Wed Jan 11 00:00:00 2023 +0000'' then Num 1673395200000
            else if s = ''2023-01-02T00:00:00+00:00'' then Num 1672617600000 else NaN)
         (\<lambda>r s. Some True) ''/repo'' ''v1 Sun Jan 1 00:00:00 2023 +0000'' (Num 1672876800000) (Num 1675209600000) (Some ''v'')
       = ([], Inr \<lparr>cycleTime = NaN, numberOfReleases = 0\<rparr>)"
proof -
  have sel: "selectLoop (\<lambda>s. if s = '' Sun Jan 1 00:00:00 2023 +0000'' then Num 1672531200000
            else if s = '' Wed Jan 11 00:00:00 2023 +0000'' then Num 1673395200000
            else if s = ''2023-01-02T00:00:00+00:00'' then Num 1672617600000 else NaN)
       (\<lambda>r s. Some True) (Num 1675209600000) (Some ''v'') (split_js CHR 0x0A ''v1 Sun Jan 1 00:00:00 2023 +0000'') []
     = Inr [\<lparr>tag = ''v1'', date = Num 1672531200000\<rparr>]"
    by code_simp
  have none: "filter (admitted (Num 1672876800000))
       (zip_js [\<lparr>tag = ''v1'', date = Num 1672531200000\<rparr>] (drop 1 [\<lparr>tag = ''v1'', date = Num 1672531200000\<rparr>])) = []"
    by code_simp
  show ?thesis
    using no_release_survives [OF sel none, of "\<lambda>c. Inl ''fatal''" "''/repo''"] sel none by simp
qed

section \<open>The duration extractor\<close>

lemma tokens_from_word:
  "\<forall>c \<in> set w. \<not> is_space c \<Longrightarrow> tokens_from cur (w @ r) = tokens_from (cur @ w) r"
  by (induction w arbitrary: cur) simp_all

lemma cherry_line_fields:
  assumes "cherry_line l"
  shows "nth_opt (split_js CHR '' '' l) 1 = nth_opt (tokens l) 1"
proof -
  define r where "r = drop 2 l"
  define w where "w = takeWhile (\<lambda>c. \<not> is_space c) r"
  define rest where "rest = dropWhile (\<lambda>c. \<not> is_space c) r"
  from assms have l: "l = CHR ''+'' # CHR '' '' # r"
    by (auto simp: cherry_line_def r_def prefix_def)
  have r: "r = w @ rest" by (simp add: w_def rest_def)
  have w: "\<forall>c \<in> set w. \<not> is_space c" unfolding w_def by (auto dest: set_takeWhileD)
  from assms have ne: "w \<noteq> []" and sep: "rest = [] \<or> hd rest = CHR '' ''"
    by (simp_all add: cherry_line_def Let_def w_def rest_def r_def)
  have nosp: "\<forall>c \<in> set w. c \<noteq> CHR '' ''" using w by (auto simp: is_space_def)
  have "takeWhile (\<lambda>x. x \<noteq> CHR '' '') (w @ rest) = w"
    using nosp sep by (cases rest) (simp_all add: takeWhile_append2)
  then have hd: "hd (split_js CHR '' '' r) = w" by (simp add: hd_split_js r)
  have "split_js CHR '' '' l = ''+'' # split_js CHR '' '' r"
    by (simp add: l)
  then have a: "nth_opt (split_js CHR '' '' l) 1 = Some w"
    using hd split_js_nonempty [of "CHR '' ''" r]
    by (cases "split_js CHR '' '' r") (simp_all add: nth_opt_def)
  have "tokens l = ''+'' # tokens_from [] (w @ rest)"
    by (simp add: tokens_def l r is_space_def)
  also have "tokens_from [] (w @ rest) = tokens_from w rest"
    using tokens_from_word [OF w, of "[]" rest] by simp
  also have "\<dots> = w # tl (tokens_from w rest)"
    using ne sep by (cases rest) (auto simp: is_space_def)
  finally have "nth_opt (tokens l) 1 = Some w" by (simp add: nth_opt_def)
  with a show ?thesis by simp
qed

lemma commitDatesLoop_success:
  "commit_times sh dp path (\<lambda>l. nth_opt (split_js CHR '' '' l) 1) (filter (prefix ''+'') ls) ts \<Longrightarrow>
     \<exists>ev. commitDatesLoop sh dp path ls acc = (ev, Inr (acc @ ts))"
proof (induction ls arbitrary: acc ts)
  case Nil
  then show ?case by (simp add: commit_times_def)
next
  case (Cons l ls)
  show ?case
  proof (cases "prefix ''+'' l")
    case False
    with Cons.prems have
      "commit_times sh dp path (\<lambda>l. nth_opt (split_js CHR '' '' l) 1) (filter (prefix ''+'') ls) ts"
      by (simp add: commit_times_def)
    from Cons.IH [OF this, of acc] show ?thesis using False by simp
  next
    case True
    with Cons.prems obtain t ts' ev1 where ts: "ts = t # ts'"
      and t: "getCommitTime sh dp path (js_string (nth_opt (split_js CHR '' '' l) 1)) = (ev1, Inr t)"
      and rest: "commit_times sh dp path (\<lambda>l. nth_opt (split_js CHR '' '' l) 1)
          (filter (prefix ''+'') ls) ts'"
      by (auto simp: commit_times_def list_all2_Cons1)
    from Cons.IH [OF rest, of "acc @ [t]"] obtain ev2 where
      "commitDatesLoop sh dp path ls (acc @ [t]) = (ev2, Inr (acc @ t # ts'))" by auto
    then show ?thesis using True t ts by (simp add: Let_def)
  qed
qed

lemma commitDatesLoop_result:
  "commitDatesLoop sh dp path ls acc = (ev, Inr ds) \<Longrightarrow>
     \<exists>ts. ds = acc @ ts
        \<and> commit_times sh dp path (\<lambda>l. nth_opt (split_js CHR '' '' l) 1) (filter (prefix ''+'') ls) ts"
proof (induction ls arbitrary: acc ev)
  case Nil
  then show ?case by (simp add: commit_times_def)
next
  case (Cons l ls)
  show ?case
  proof (cases "prefix ''+'' l")
    case False
    with Cons.prems have "commitDatesLoop sh dp path ls acc = (ev, Inr ds)" by simp
    from Cons.IH [OF this] show ?thesis using False by (simp add: commit_times_def)
  next
    case True
    with Cons.prems obtain ev1 t ev2 where
      t: "getCommitTime sh dp path (js_string (nth_opt (split_js CHR '' '' l) 1)) = (ev1, Inr t)"
      and r: "commitDatesLoop sh dp path ls (acc @ [t]) = (ev2, Inr ds)"
      by (auto simp: Let_def split: prod.splits sum.splits)
    from Cons.IH [OF r] obtain ts where "ds = (acc @ [t]) @ ts"
      and "commit_times sh dp path (\<lambda>l. nth_opt (split_js CHR '' '' l) 1)
          (filter (prefix ''+'') ls) ts" by blast
    then have "ds = acc @ (t # ts)
        \<and> commit_times sh dp path (\<lambda>l. nth_opt (split_js CHR '' '' l) 1)
            (filter (prefix ''+'') (l # ls)) (t # ts)"
      using True t by (auto simp: commit_times_def)
    then show ?thesis by blast
  qed
qed

lemma commit_times_cong:
  "\<forall>l \<in> set kept. f l = g l \<Longrightarrow>
     commit_times sh dp path f kept ts = commit_times sh dp path g kept ts"
  unfolding commit_times_def
  by (induction kept arbitrary: ts) (simp_all add: list_all2_Cons1)

lemma js_abs_js_sub:
  "js_abs (js_sub a b)
     = (case a of NaN \<Rightarrow> NaN
        | Num r \<Rightarrow> (case b of NaN \<Rightarrow> NaN | Num t \<Rightarrow> Num \<bar>round_double (r - t)\<bar>))"
  by (cases a; cases b) (simp_all add: js_abs_def js_sub_def)

lemma elapsed_whole:
  assumes "\<bar>r - t\<bar> \<le> 2 ^ 53"
  shows "js_abs (js_sub (Num (of_int r)) (Num (of_int t))) = Num (of_int \<bar>r - t\<bar>)"
proof -
  have "round_double (of_int r - of_int t) = of_int (r - t)"
    using round_double_of_int [OF assms] by simp
  then show ?thesis by (simp add: js_abs_def js_sub_def)
qed

text \<open>
  Claim C2. Let the collaborator answer the diff query with lines of which those prefixed
  \<open>+\<close> have the form of \<^verbatim>\<open>git cherry\<close>, and answer the timestamp query for the second
  whitespace-delimited token of each such line. Then the extractor returns, for exactly
  the lines prefixed \<open>+\<close> and in their order, the absolute value of the (rounded)
  difference of the later release's timestamp and the commit's timestamp, not-a-number
  when one of the two is. For timestamps in whole milliseconds at most \<open>2^53\<close> apart that
  is the integer \<open>|later - commit|\<close>, whichever of the two is the later one.
\<close>

theorem durations_for_release:
  assumes "getCherryForRelease sh path upstream head = (ev0, Inr commitsDiff)"
    and "list_all cherry_line (filter (prefix ''+'') (split_js CHR 0x0A commitsDiff))"
    and "commit_times sh dp path (\<lambda>l. nth_opt (tokens l) 1)
           (filter (prefix ''+'') (split_js CHR 0x0A commitsDiff)) commitDates"
  shows "(\<exists>ev. getDurationsForRelease sh dp path upstream head releaseDate
            = (ev, Inr (map (\<lambda>time. case releaseDate of NaN \<Rightarrow> NaN
                              | Num r \<Rightarrow> (case time of NaN \<Rightarrow> NaN
                                  | Num t \<Rightarrow> Num \<bar>round_double (r - t)\<bar>)) commitDates)))
       \<and> (\<forall>r ts. releaseDate = Num (of_int r) \<and> commitDates = map (\<lambda>t. Num (of_int t)) ts
               \<and> (\<forall>t \<in> set ts. \<bar>r - t\<bar> \<le> 2 ^ 53) \<longrightarrow>
             (\<exists>ev. getDurationsForRelease sh dp path upstream head releaseDate
                = (ev, Inr (map (\<lambda>t. Num (of_int \<bar>r - t\<bar>)) ts))))"
proof -
  have "\<forall>l \<in> set (filter (prefix ''+'') (split_js CHR 0x0A commitsDiff)).
      nth_opt (split_js CHR '' '' l) 1 = nth_opt (tokens l) 1"
  proof
    fix l
    assume "l \<in> set (filter (prefix ''+'') (split_js CHR 0x0A commitsDiff))"
    then have "cherry_line l" using assms(2) by (simp add: list_all_iff)
    then show "nth_opt (split_js CHR '' '' l) 1 = nth_opt (tokens l) 1"
      by (rule cherry_line_fields)
  qed
  from commit_times_cong [OF this] assms(3)
  have "commit_times sh dp path (\<lambda>l. nth_opt (split_js CHR '' '' l) 1)
      (filter (prefix ''+'') (split_js CHR 0x0A commitsDiff)) commitDates" by simp
  from commitDatesLoop_success [OF this, of "[]"] obtain ev1 where
    "commitDatesLoop sh dp path (split_js CHR 0x0A commitsDiff) [] = (ev1, Inr commitDates)" by auto
  then have run: "getDurationsForRelease sh dp path upstream head releaseDate
      = (ev0 @ ev1, Inr (map (\<lambda>date. js_abs (js_sub releaseDate date)) commitDates))"
    using assms(1) by (simp add: getDurationsForRelease_def)
  have first: "\<exists>ev. getDurationsForRelease sh dp path upstream head releaseDate
      = (ev, Inr (map (\<lambda>time. case releaseDate of NaN \<Rightarrow> NaN
                        | Num r \<Rightarrow> (case time of NaN \<Rightarrow> NaN
                            | Num t \<Rightarrow> Num \<bar>round_double (r - t)\<bar>)) commitDates))"
    using run by (simp add: js_abs_js_sub)
  have second: "\<exists>ev. getDurationsForRelease sh dp path upstream head releaseDate
      = (ev, Inr (map (\<lambda>t. Num (of_int \<bar>r - t\<bar>)) ts))"
    if "releaseDate = Num (of_int r) \<and> commitDates = map (\<lambda>t. Num (of_int t)) ts
        \<and> (\<forall>t \<in> set ts. \<bar>r - t\<bar> \<le> 2 ^ 53)" for r ts
  proof -
    from that have rd: "releaseDate = Num (of_int r)"
      and cd: "commitDates = map (\<lambda>t. Num (of_int t)) ts"
      and b: "\<forall>t \<in> set ts. \<bar>r - t\<bar> \<le> 2 ^ 53" by simp_all
    have "map (\<lambda>date. js_abs (js_sub releaseDate date)) commitDates
        = map (\<lambda>t. Num (of_int \<bar>r - t\<bar>)) ts"
      unfolding rd cd using b by (simp add: elapsed_whole)
    with run show ?thesis by simp
  qed
  from first second show ?thesis by blast
qed

theorem durations_for_release_witness:
  "getCherryForRelease
       (\<lambda>c. if c = ''cd /repo && git cherry v1 v2''
            then Inr (''+ abc123'' @ [CHR 0x0A] @ ''- fff999'' @ [CHR 0x0A] @ ''+ def456'' @ [CHR 0x0A])
            else if c = ''cd /repo && git log -n 1 --format=format:%cI abc123''
            then Inr ''2023-01-02T00:00:00+00:00''
            else if c = ''cd /repo && git log -n 1 --format=format:%cI def456''
            then Inr ''2023-01-12T00:00:00+00:00'' else Inl ''fatal'')
       ''/repo'' ''v1'' ''v2''
     = ([Exec ''cd /repo && git cherry v1 v2''],
        Inr (''+ abc123'' @ [CHR 0x0A] @ ''- fff999'' @ [CHR 0x0A] @ ''+ def456'' @ [CHR 0x0A]))
   \<and> list_all cherry_line
       (filter (prefix ''+'') (split_js CHR 0x0A (''+ abc123'' @ [CHR 0x0A] @ ''- fff999'' @ [CHR 0x0A] @ ''+ def456'' @ [CHR 0x0A])))
   \<and> commit_times
       (\<lambda>c. if c = ''cd /repo && git cherry v1 v2''
            then Inr (''+ abc123'' @ [CHR 0x0A] @ ''- fff999'' @ [CHR 0x0A] @ ''+ def456'' @ [CHR 0x0A])
            else if c = ''cd /repo && git log -n 1 --format=format:%cI abc123''
            then Inr ''2023-01-02T00:00:00+00:00''
            else if c = ''cd /repo && git log -n 1 --format=format:%cI def456''
            then Inr ''2023-01-12T00:00:00+00:00'' else Inl ''fatal'')
       (\<lambda>s. if s = ''2023-01-02T00:00:00+00:00'' then Num 1672617600000
            else if s = ''2023-01-12T00:00:00+00:00'' then Num 1673481600000 else NaN)
       ''/repo'' (\<lambda>l. nth_opt (tokens l) 1)
       (filter (prefix ''+'') (split_js CHR 0x0A (''+ abc123'' @ [CHR 0x0A] @ ''- fff999'' @ [CHR 0x0A] @ ''+ def456'' @ [CHR 0x0A])))
       [Num 1672617600000, Num 1673481600000]
   \<and> snd (getDurationsForRelease
         (\<lambda>c. if c = ''cd /repo && git cherry v1 v2''
            then Inr (''+ abc123'' @ [CHR 0x0A] @ ''- fff999'' @ [CHR 0x0A] @ ''+ def456'' @ [CHR 0x0A])
            else if c = ''cd /repo && git log -n 1 --format=format:%cI abc123''
            then Inr ''2023-01-02T00:00:00+00:00''
            else if c = ''cd /repo && git log -n 1 --format=format:%cI def456''
            then Inr ''2023-01-12T00:00:00+00:00'' else Inl ''fatal'')
         (\<lambda>s. if s = ''2023-01-02T00:00:00+00:00'' then Num 1672617600000
            else if s = ''2023-01-12T00:00:00+00:00'' then Num 1673481600000 else NaN)
         ''/repo'' ''v1'' ''v2'' (Num 1673395200000))
     = Inr [Num 777600000, Num 86400000]"
proof -
  have cherry: "getCherryForRelease
       (\<lambda>c. if c = ''cd /repo && git cherry v1 v2''
            then Inr (''+ abc123'' @ [CHR 0x0A] @ ''- fff999'' @ [CHR 0x0A] @ ''+ def456'' @ [CHR 0x0A])
            else if c = ''cd /repo && git log -n 1 --format=format:%cI abc123''
            then Inr ''2023-01-02T00:00:00+00:00''
            else if c = ''cd /repo && git log -n 1 --format=format:%cI def456''
            then Inr ''2023-01-12T00:00:00+00:00'' else Inl ''fatal'')
       ''/repo'' ''v1'' ''v2''
     = ([Exec ''cd /repo && git cherry v1 v2''],
        Inr (''+ abc123'' @ [CHR 0x0A] @ ''- fff999'' @ [CHR 0x0A] @ ''+ def456'' @ [CHR 0x0A]))"
    by code_simp
  have form: "list_all cherry_line
       (filter (prefix ''+'') (split_js CHR 0x0A (''+ abc123'' @ [CHR 0x0A] @ ''- fff999'' @ [CHR 0x0A] @ ''+ def456'' @ [CHR 0x0A])))"
    by code_simp
  have kept: "(filter (prefix ''+'') (split_js CHR 0x0A (''+ abc123'' @ [CHR 0x0A] @ ''- fff999'' @ [CHR 0x0A] @ ''+ def456'' @ [CHR 0x0A]))) = [''+ abc123'', ''+ def456'']"
    by code_simp
  have t1: "getCommitTime
      (\<lambda>c. if c = ''cd /repo && git cherry v1 v2''
            then Inr (''+ abc123'' @ [CHR 0x0A] @ ''- fff999'' @ [CHR 0x0A] @ ''+ def456'' @ [CHR 0x0A])
            else if c = ''cd /repo && git log -n 1 --format=format:%cI abc123''
            then Inr ''2023-01-02T00:00:00+00:00''
            else if c = ''cd /repo && git log -n 1 --format=format:%cI def456''
            then Inr ''2023-01-12T00:00:00+00:00'' else Inl ''fatal'')
      (\<lambda>s. if s = ''2023-01-02T00:00:00+00:00'' then Num 1672617600000
            else if s = ''2023-01-12T00:00:00+00:00'' then Num 1673481600000 else NaN)
      ''/repo'' (js_string (nth_opt (tokens ''+ abc123'') 1))
    = ([Exec ''cd /repo && git log -n 1 --format=format:%cI abc123''], Inr (Num 1672617600000))"
    by code_simp
  have t2: "getCommitTime
      (\<lambda>c. if c = ''cd /repo && git cherry v1 v2''
            then Inr (''+ abc123'' @ [CHR 0x0A] @ ''- fff999'' @ [CHR 0x0A] @ ''+ def456'' @ [CHR 0x0A])
            else if c = ''cd /repo && git log -n 1 --format=format:%cI abc123''
            then Inr ''2023-01-02T00:00:00+00:00''
            else if c = ''cd /repo && git log -n 1 --format=format:%cI def456''
            then Inr ''2023-01-12T00:00:00+00:00'' else Inl ''fatal'')
      (\<lambda>s. if s = ''2023-01-02T00:00:00+00:00'' then Num 1672617600000
            else if s = ''2023-01-12T00:00:00+00:00'' then Num 1673481600000 else NaN)
      ''/repo'' (js_string (nth_opt (tokens ''+ def456'') 1))
    = ([Exec ''cd /repo && git log -n 1 --format=format:%cI def456''], Inr (Num 1673481600000))"
    by code_simp
  have answers: "commit_times
       (\<lambda>c. if c = ''cd /repo && git cherry v1 v2''
            then Inr (''+ abc123'' @ [CHR 0x0A] @ ''- fff999'' @ [CHR 0x0A] @ ''+ def456'' @ [CHR 0x0A])
            else if c = ''cd /repo && git log -n 1 --format=format:%cI abc123''
            then Inr ''2023-01-02T00:00:00+00:00''
            else if c = ''cd /repo && git log -n 1 --format=format:%cI def456''
            then Inr ''2023-01-12T00:00:00+00:00'' else Inl ''fatal'')
       (\<lambda>s. if s = ''2023-01-02T00:00:00+00:00'' then Num 1672617600000
            else if s = ''2023-01-12T00:00:00+00:00'' then Num 1673481600000 else NaN)
       ''/repo'' (\<lambda>l. nth_opt (tokens l) 1)
       (filter (prefix ''+'') (split_js CHR 0x0A (''+ abc123'' @ [CHR 0x0A] @ ''- fff999'' @ [CHR 0x0A] @ ''+ def456'' @ [CHR 0x0A])))
       [Num 1672617600000, Num 1673481600000]"
    unfolding kept commit_times_def
    by (intro list.rel_intros exI) (rule t1, rule t2)
  have prem: "Num 1673395200000 = Num (of_int (1673395200000 :: int))
      \<and> [Num 1672617600000, Num 1673481600000]
          = map (\<lambda>t. Num (of_int t)) [1672617600000, 1673481600000 :: int]
      \<and> (\<forall>t \<in> set [1672617600000, 1673481600000 :: int]. \<bar>1673395200000 - t\<bar> \<le> 2 ^ 53)"
    by simp
  have d: "map (\<lambda>t. Num (of_int \<bar>1673395200000 - t\<bar>)) [1672617600000, 1673481600000 :: int]
      = [Num 777600000, Num 86400000]"
    by simp
  note c = durations_for_release [OF cherry form answers, of "Num 1673395200000",
      THEN conjunct2, rule_format, of 1673395200000 "[1672617600000, 1673481600000]",
      OF prem, unfolded d]
  from c obtain ev where "getDurationsForRelease
         (\<lambda>c. if c = ''cd /repo && git cherry v1 v2''
            then Inr (''+ abc123'' @ [CHR 0x0A] @ ''- fff999'' @ [CHR 0x0A] @ ''+ def456'' @ [CHR 0x0A])
            else if c = ''cd /repo && git log -n 1 --format=format:%cI abc123''
            then Inr ''2023-01-02T00:00:00+00:00''
            else if c = ''cd /repo && git log -n 1 --format=format:%cI def456''
            then Inr ''2023-01-12T00:00:00+00:00'' else Inl ''fatal'')
         (\<lambda>s. if s = ''2023-01-02T00:00:00+00:00'' then Num 1672617600000
            else if s = ''2023-01-12T00:00:00+00:00'' then Num 1673481600000 else NaN)
         ''/repo'' ''v1'' ''v2'' (Num 1673395200000)
     = (ev, Inr [Num 777600000, Num 86400000])" ..
  then have res: "snd (getDurationsForRelease
         (\<lambda>c. if c = ''cd /repo && git cherry v1 v2''
            then Inr (''+ abc123'' @ [CHR 0x0A] @ ''- fff999'' @ [CHR 0x0A] @ ''+ def456'' @ [CHR 0x0A])
            else if c = ''cd /repo && git log -n 1 --format=format:%cI abc123''
            then Inr ''2023-01-02T00:00:00+00:00''
            else if c = ''cd /repo && git log -n 1 --format=format:%cI def456''
            then Inr ''2023-01-12T00:00:00+00:00'' else Inl ''fatal'')
         (\<lambda>s. if s = ''2023-01-02T00:00:00+00:00'' then Num 1672617600000
            else if s = ''2023-01-12T00:00:00+00:00'' then Num 1673481600000 else NaN)
         ''/repo'' ''v1'' ''v2'' (Num 1673395200000))
     = Inr [Num 777600000, Num 86400000]"
    by (simp only: snd_conv)
  show ?thesis
    by (intro conjI) (rule cherry, rule form, rule answers, rule res)
qed

text \<open>
  Claim C9, amended. Every duration the extractor returns is never negative: it is
  not-a-number or a non-negative number, and it is a number exactly when the later
  release's timestamp and the commit's timestamp both are.
\<close>

theorem durations_magnitudes:
  assumes "getDurationsForRelease sh dp path upstream head releaseDate = (ev, Inr durations)"
  shows "\<exists>ev0 commitsDiff commitDates.
           getCherryForRelease sh path upstream head = (ev0, Inr commitsDiff)
           \<and> commit_times sh dp path (\<lambda>l. nth_opt (split_js CHR '' '' l) 1)
                (filter (prefix ''+'') (split_js CHR 0x0A commitsDiff)) commitDates
           \<and> list_all2 (\<lambda>time d. (d = NaN \<longleftrightarrow> releaseDate = NaN \<or> time = NaN)
                                 \<and> (\<forall>x. d = Num x \<longrightarrow> 0 \<le> x)) commitDates durations"
proof -
  from assms obtain ev0 commitsDiff ev1 commitDates where
    c: "getCherryForRelease sh path upstream head = (ev0, Inr commitsDiff)"
    and l: "commitDatesLoop sh dp path (split_js CHR 0x0A commitsDiff) [] = (ev1, Inr commitDates)"
    and d: "durations = map (\<lambda>date. js_abs (js_sub releaseDate date)) commitDates"
    by (auto simp: getDurationsForRelease_def split: prod.splits sum.splits)
  from commitDatesLoop_result [OF l] have
    t: "commit_times sh dp path (\<lambda>l. nth_opt (split_js CHR '' '' l) 1)
          (filter (prefix ''+'') (split_js CHR 0x0A commitsDiff)) commitDates" by simp
  have "(js_abs (js_sub releaseDate time) = NaN \<longleftrightarrow> releaseDate = NaN \<or> time = NaN)
      \<and> (\<forall>x. js_abs (js_sub releaseDate time) = Num x \<longrightarrow> 0 \<le> x)" for time
    by (cases releaseDate; cases time) (auto simp: js_abs_def js_sub_def)
  then have "list_all2 (\<lambda>time d. (d = NaN \<longleftrightarrow> releaseDate = NaN \<or> time = NaN)
      \<and> (\<forall>x. d = Num x \<longrightarrow> 0 \<le> x)) commitDates durations"
    unfolding d by (simp add: list_all2_map2 list_all2_same del: all_simps)
  with c t show ?thesis by blast
qed

theorem durations_magnitudes_witness:
  "getDurationsForRelease
       (\<lambda>c. if c = ''cd /repo && git cherry v1 v2'' then Inr (''+ abc123'' @ [CHR 0x0A] @ ''- def456'' @ [CHR 0x0A])
            else if c = ''cd /repo && git log -n 1 --format=format:%cI abc123''
            then Inr ''2023-01-02T00:00:00+00:00'' else Inl ''fatal'')
       (\<lambda>s. if s = '' Sun Jan 1 00:00:00 2023 +0000'' then Num 1672531200000
            else if s = '' Wed Jan 11 00:00:00 2023 +0000'' then Num 1673395200000
            else if s = ''2023-01-02T00:00:00+00:00'' then Num 1672617600000 else NaN)
       ''/repo'' ''v1'' ''v2'' (Num 1673395200000)
     = ([Exec ''cd /repo && git cherry v1 v2'',
          Exec ''cd /repo && git log -n 1 --format=format:%cI abc123''],
        Inr [Num 777600000])
   \<and> (\<exists>ev0 commitsDiff commitDates.
         getCherryForRelease
           (\<lambda>c. if c = ''cd /repo && git cherry v1 v2'' then Inr (''+ abc123'' @ [CHR 0x0A] @ ''- def456'' @ [CHR 0x0A])
            else if c = ''cd /repo && git log -n 1 --format=format:%cI abc123''
            then Inr ''2023-01-02T00:00:00+00:00'' else Inl ''fatal'')
           ''/repo'' ''v1'' ''v2'' = (ev0, Inr commitsDiff)
         \<and> commit_times
           (\<lambda>c. if c = ''cd /repo && git cherry v1 v2'' then Inr (''+ abc123'' @ [CHR 0x0A] @ ''- def456'' @ [CHR 0x0A])
            else if c = ''cd /repo && git log -n 1 --format=format:%cI abc123''
            then Inr ''2023-01-02T00:00:00+00:00'' else Inl ''fatal'')
           (\<lambda>s. if s = '' Sun Jan 1 00:00:00 2023 +0000'' then Num 1672531200000
            else if s = '' Wed Jan 11 00:00:00 2023 +0000'' then Num 1673395200000
            else if s = ''2023-01-02T00:00:00+00:00'' then Num 1672617600000 else NaN)
           ''/repo'' (\<lambda>l. nth_opt (split_js CHR '' '' l) 1)
           (filter (prefix ''+'') (split_js CHR 0x0A commitsDiff)) commitDates
         \<and> list_all2 (\<lambda>time d. (d = NaN \<longleftrightarrow> Num 1673395200000 = NaN \<or> time = NaN)
                               \<and> (\<forall>x. d = Num x \<longrightarrow> 0 \<le> x)) commitDates [Num 777600000])"
proof -
  have run: "getDurationsForRelease
       (\<lambda>c. if c = ''cd /repo && git cherry v1 v2'' then Inr (''+ abc123'' @ [CHR 0x0A] @ ''- def456'' @ [CHR 0x0A])
            else if c = ''cd /repo && git log -n 1 --format=format:%cI abc123''
            then Inr ''2023-01-02T00:00:00+00:00'' else Inl ''fatal'')
       (\<lambda>s. if s = '' Sun Jan 1 00:00:00 2023 +0000'' then Num 1672531200000
            else if s = '' Wed Jan 11 00:00:00 2023 +0000'' then Num 1673395200000
            else if s = ''2023-01-02T00:00:00+00:00'' then Num 1672617600000 else NaN)
       ''/repo'' ''v1'' ''v2'' (Num 1673395200000)
     = ([Exec ''cd /repo && git cherry v1 v2'',
          Exec ''cd /repo && git log -n 1 --format=format:%cI abc123''],
        Inr [Num 777600000])"
    by code_simp
  from durations_magnitudes [OF run] have "(\<exists>ev0 commitsDiff commitDates.
         getCherryForRelease
           (\<lambda>c. if c = ''cd /repo && git cherry v1 v2'' then Inr (''+ abc123'' @ [CHR 0x0A] @ ''- def456'' @ [CHR 0x0A])
            else if c = ''cd /repo && git log -n 1 --format=format:%cI abc123''
            then Inr ''2023-01-02T00:00:00+00:00'' else Inl ''fatal'')
           ''/repo'' ''v1'' ''v2'' = (ev0, Inr commitsDiff)
         \<and> commit_times
           (\<lambda>c. if c = ''cd /repo && git cherry v1 v2'' then Inr (''+ abc123'' @ [CHR 0x0A] @ ''- def456'' @ [CHR 0x0A])
            else if c = ''cd /repo && git log -n 1 --format=format:%cI abc123''
            then Inr ''2023-01-02T00:00:00+00:00'' else Inl ''fatal'')
           (\<lambda>s. if s = '' Sun Jan 1 00:00:00 2023 +0000'' then Num 1672531200000
            else if s = '' Wed Jan 11 00:00:00 2023 +0000'' then Num 1673395200000
            else if s = ''2023-01-02T00:00:00+00:00'' then Num 1672617600000 else NaN)
           ''/repo'' (\<lambda>l. nth_opt (split_js CHR '' '' l) 1)
           (filter (prefix ''+'') (split_js CHR 0x0A commitsDiff)) commitDates
         \<and> list_all2 (\<lambda>time d. (d = NaN \<longleftrightarrow> Num 1673395200000 = NaN \<or> time = NaN)
                               \<and> (\<forall>x. d = Num x \<longrightarrow> 0 \<le> x)) commitDates [Num 777600000])" .
  with run show ?thesis by (rule conjI)
qed

theorem durations_NaN_counterexample:
  "admitted (Num 1672876800000)
     (Some \<lparr>tag = ''v1'', date = Num 1672531200000\<rparr>, Some \<lparr>tag = ''v2'', date = NaN\<rparr>)
   \<and> releaseLoop
         (\<lambda>c. if c = ''cd /repo && git cherry v1 v2'' then Inr (''+ abc123'' @ [CHR 0x0A] @ ''- def456'' @ [CHR 0x0A])
            else if c = ''cd /repo && git log -n 1 --format=format:%cI abc123''
            then Inr ''2023-01-02T00:00:00+00:00'' else Inl ''fatal'')
         (\<lambda>s. if s = '' Sun Jan 1 00:00:00 2023 +0000'' then Num 1672531200000
            else if s = '' Wed Jan 11 00:00:00 2023 +0000'' then Num 1673395200000
            else if s = ''2023-01-02T00:00:00+00:00'' then Num 1672617600000 else NaN)
         ''/repo'' (Num 1672876800000)
         [(Some \<lparr>tag = ''v1'', date = Num 1672531200000\<rparr>, Some \<lparr>tag = ''v2'', date = NaN\<rparr>)] ([], 0)
       = ([Exec ''cd /repo && git cherry v1 v2'',
           Exec ''cd /repo && git log -n 1 --format=format:%cI abc123'',
           ReleaseLine ''v1'' ''v2'' NaN],
          Inr ([NaN], 1))"
  by code_simp

section \<open>Input errors\<close>

lemma runShellCommand_error:
  "runShellCommand sh path command = (ev, Inl e) \<Longrightarrow> \<not> thrown e"
  by (auto simp: runShellCommand_def thrown_def Let_def split: sum.splits)

lemma getCommitTime_error:
  "getCommitTime sh dp path sha = (ev, Inl e) \<Longrightarrow> \<not> thrown e"
  by (auto simp: getCommitTime_def split: prod.splits sum.splits dest: runShellCommand_error)

lemma commitDatesLoop_error:
  "commitDatesLoop sh dp path ls acc = (ev, Inl e) \<Longrightarrow> \<not> thrown e"
proof (induction ls arbitrary: acc ev)
  case Nil
  then show ?case by simp
next
  case (Cons l ls)
  then show ?case
    by (auto simp: Let_def split: if_splits prod.splits sum.splits dest: getCommitTime_error)
qed

lemma getDurationsForRelease_error:
  "getDurationsForRelease sh dp path up hea rd = (ev, Inl e) \<Longrightarrow> \<not> thrown e"
  by (auto simp: getDurationsForRelease_def getCherryForRelease_def
      split: prod.splits sum.splits dest: runShellCommand_error commitDatesLoop_error)

lemma releaseLoop_error:
  "releaseLoop sh dp path s ps acc = (ev, Inl e) \<Longrightarrow> \<not> thrown e"
proof (induction ps arbitrary: acc ev)
  case Nil
  then show ?case by (cases acc) simp
next
  case (Cons p ps)
  obtain ds n where acc: "acc = (ds, n)" by (cases acc)
  from Cons.prems show ?case
    unfolding acc
    by (auto simp: thrown_def split: option.splits if_splits prod.splits sum.splits
        dest: getDurationsForRelease_error Cons.IH)
qed

lemma calculateCycleTime_error:
  "calculateCycleTime sh dp mt path tagsData s e' regexp = (ev, Inl e) \<Longrightarrow> \<not> thrown e"
  by (auto simp: calculateCycleTime_def Let_def thrown_def
      split: prod.splits sum.splits dest: selectLoop_error releaseLoop_error)

text \<open>
  Claim C10. With a repository path given, \<^verbatim>\<open>execute\<close> stops with the error
  \<^verbatim>\<open>Couldn't parse start-date argument\<close> exactly when the parse of the start date is
  not-a-number or zero; so it does for the start of the Unix epoch, whose parse is zero.
\<close>

theorem start_date_rejected:
  assumes "truthy_string path"
  shows "(snd (execute sh dp mt startDateString endDateString regexp isLightweight path)
            = Inl (Thrown ''Couldn't parse start-date argument'')
          \<longleftrightarrow> dp (js_string startDateString) = NaN \<or> dp (js_string startDateString) = Num 0)
       \<and> (dp ''1970-01-01T00:00:00Z'' = Num 0 \<longrightarrow>
            execute sh dp mt (Some ''1970-01-01T00:00:00Z'') endDateString regexp isLightweight path
              = ([], Inl (Thrown ''Couldn't parse start-date argument'')))"
proof (intro conjI impI)
  show "execute sh dp mt (Some ''1970-01-01T00:00:00Z'') endDateString regexp isLightweight path
      = ([], Inl (Thrown ''Couldn't parse start-date argument''))"
    if "dp ''1970-01-01T00:00:00Z'' = Num 0"
    using that assms by (simp add: execute_def js_string_def truthy_def)
  show "snd (execute sh dp mt startDateString endDateString regexp isLightweight path)
            = Inl (Thrown ''Couldn't parse start-date argument'')
          \<longleftrightarrow> dp (js_string startDateString) = NaN \<or> dp (js_string startDateString) = Num 0"
  proof (cases "truthy (dp (js_string startDateString))")
    case False
    then have "dp (js_string startDateString) = NaN \<or> dp (js_string startDateString) = Num 0"
      by (simp add: truthy_def split: jsnum.splits)
    moreover have "execute sh dp mt startDateString endDateString regexp isLightweight path
        = ([], Inl (Thrown ''Couldn't parse start-date argument''))"
      using False assms by (simp add: execute_def Let_def)
    ultimately show ?thesis by simp
  next
    case True
    then have ok: "\<not> (dp (js_string startDateString) = NaN \<or> dp (js_string startDateString) = Num 0)"
      by (auto simp: truthy_def)
    have "snd (execute sh dp mt startDateString endDateString regexp isLightweight path)
        \<noteq> Inl (Thrown ''Couldn't parse start-date argument'')"
      using True assms
      by (auto simp: execute_def Let_def thrown_def
          split: prod.splits sum.splits
          dest!: runShellCommand_error calculateCycleTime_error)
    with ok show ?thesis by simp
  qed
qed

theorem start_date_rejected_witness:
  "truthy_string (Some ''/repo'')
   \<and> execute (\<lambda>c. Inr []) (\<lambda>s. if s = ''1970-01-01T00:00:00Z'' then Num 0 else NaN) (\<lambda>r s. Some True)
        (Some ''1970-01-01T00:00:00Z'') (Some ''2024-01-01'') (Some ''v'') False (Some ''/repo'')
      = ([], Inl (Thrown ''Couldn't parse start-date argument''))"
  using start_date_rejected [of "Some ''/repo''" "\<lambda>c. Inr []"
      "\<lambda>s. if s = ''1970-01-01T00:00:00Z'' then Num 0 else NaN" "\<lambda>r s. Some True"
      "Some ''1970-01-01T00:00:00Z''" "Some ''2024-01-01''" "Some ''v''" False]
  by (simp add: truthy_string_def)

text \<open>
  Claim C4 says that an end date that fails to parse is reported before any external
  call. At an empty end date the tags are listed first and only then is the end-date
  error raised; at an end date that is not a date the tags are listed, no error is raised
  at all, and the summary is printed for a window whose end is not-a-number.
\<close>

theorem end_date_checked_after_listing:
  \<open>execute (\<lambda>c. Inr []) (\<lambda>s. if s = ''2020-01-01'' then Num 1577836800000 else NaN)
      (\<lambda>r s. Some True) (Some ''2020-01-01'') (Some []) (Some ''v'') False (Some ''/repo'')
    = ([Exec ''cd /repo && git for-each-ref --format="%(refname:short) %(taggerdate)" --sort="taggerdate" refs/tags''],
       Inl (Thrown ''Couldn't parse end-date argument''))
   \<and> execute (\<lambda>c. Inr []) (\<lambda>s. if s = ''2020-01-01'' then Num 1577836800000 else NaN)
      (\<lambda>r s. Some True) (Some ''2020-01-01'') (Some ''foo'') (Some ''v'') False (Some ''/repo'')
    = ([Exec ''cd /repo && git for-each-ref --format="%(refname:short) %(taggerdate)" --sort="taggerdate" refs/tags'',
        SummaryLine (Num 1577836800000) NaN 0 NaN],
       Inr ())\<close>
  by code_simp

end
